theory Spec2Isabelle
  imports
    Main
    "HOL-Library.Word"
    "HOL-Library.Char_ord"
    "HOL-Library.List_Lexorder"
    "HOL-Library.Multiset"
begin

section \<open>The gallery builder \<^verbatim>\<open>view_imgs.py\<close>\<close>

text \<open>
  The script lists the image files of one directory, and for each of them renders a grid
  of cells: the original image and, per model directory and subfolder, the image of the
  same name, embedded as a Base64 data URI. The embedding below follows the source
  function by function. Python strings are \<open>string\<close> (a list of bytes: a character
  outside ASCII is its UTF-8 encoding), file contents are lists of 8-bit words, the
  filesystem is an explicit snapshot, and every exception of the source is a value
  \<open>Inl e\<close> of a sum type.
\<close>

subsection \<open>The filesystem and \<^verbatim>\<open>pathlib\<close>\<close>

type_synonym byte = "8 word"

text \<open>
  A path is the list of its components below the root; the script resolves every
  directory it is given before it builds the document.
\<close>

type_synonym path = "string list"

datatype node = File "byte list" | Directory

datatype error = FileNotFoundError | IsADirectoryError | NotADirectoryError | FileExistsError

text \<open>
  A snapshot: what sits at each path, and in which order the operating system
  enumerates the entries of a directory (\<^verbatim>\<open>iterdir\<close> promises no order).
\<close>

record filesystem =
  node_at :: "path \<Rightarrow> node option"
  entries :: "path \<Rightarrow> string list"

definition exists_path :: "filesystem \<Rightarrow> path \<Rightarrow> bool" where
  "exists_path fs p = (node_at fs p \<noteq> None)"

definition is_file :: "filesystem \<Rightarrow> path \<Rightarrow> bool" where
  "is_file fs p = (case node_at fs p of Some (File b) \<Rightarrow> True | _ \<Rightarrow> False)"

definition is_dir :: "filesystem \<Rightarrow> path \<Rightarrow> bool" where
  "is_dir fs p = (node_at fs p = Some Directory)"

text \<open>\<^verbatim>\<open>open(path, "rb").read()\<close>: a missing path and a directory both raise.\<close>

definition read_bytes :: "filesystem \<Rightarrow> path \<Rightarrow> error + byte list" where
  "read_bytes fs p =
     (case node_at fs p of
        None \<Rightarrow> Inl FileNotFoundError
      | Some Directory \<Rightarrow> Inl IsADirectoryError
      | Some (File b) \<Rightarrow> Inr b)"

text \<open>\<^verbatim>\<open>Path.iterdir\<close>: the children of a directory, in the order of the listing.\<close>

definition iterdir :: "filesystem \<Rightarrow> path \<Rightarrow> error + path list" where
  "iterdir fs d =
     (case node_at fs d of
        None \<Rightarrow> Inl FileNotFoundError
      | Some (File b) \<Rightarrow> Inl NotADirectoryError
      | Some Directory \<Rightarrow> Inr (map (\<lambda>n. d @ [n]) (entries fs d)))"

text \<open>\<^verbatim>\<open>Path.name\<close>: the last component, empty for the root.\<close>

definition name :: "path \<Rightarrow> string" where
  "name p = (if p = [] then [] else last p)"

text \<open>\<^verbatim>\<open>str.rfind\<close> for one character: the last index where it occurs.\<close>

fun rfind :: "char \<Rightarrow> string \<Rightarrow> nat option" where
  "rfind c [] = None"
| "rfind c (x # xs) =
     (case rfind c xs of
        Some i \<Rightarrow> Some (Suc i)
      | None \<Rightarrow> (if x = c then Some 0 else None))"

text \<open>
  \<^verbatim>\<open>Path.suffix\<close>: the name from its last dot on, when that dot is neither the first
  nor the last character of the name (\<^verbatim>\<open>0 < i < len(name) - 1\<close>).
\<close>

definition suffix :: "path \<Rightarrow> string" where
  "suffix p =
     (case rfind (CHR ''.'') (name p) of
        None \<Rightarrow> []
      | Some i \<Rightarrow> (if 0 < i \<and> Suc i < length (name p) then drop i (name p) else []))"

text \<open>\<^verbatim>\<open>str.lower\<close> on the bytes of a string: the ASCII capitals change, nothing else does.\<close>

definition lower_char :: "char \<Rightarrow> char" where
  "lower_char c =
     (case map_of (zip ''ABCDEFGHIJKLMNOPQRSTUVWXYZ'' ''abcdefghijklmnopqrstuvwxyz'') c of
        Some l \<Rightarrow> l
      | None \<Rightarrow> c)"

definition lower :: "string \<Rightarrow> string" where
  "lower s = map lower_char s"

text \<open>\<^verbatim>\<open>str.join\<close>.\<close>

fun join :: "string \<Rightarrow> string list \<Rightarrow> string" where
  "join sep [] = []"
| "join sep [x] = x"
| "join sep (x # y # ys) = x @ sep @ join sep (y # ys)"

text \<open>
  The operator \<^verbatim>\<open>/\<close> of \<^verbatim>\<open>pathlib\<close>: the right operand is split at its slashes, empty
  and \<^verbatim>\<open>.\<close> components are dropped, and an operand that starts with a slash replaces
  the left path.
\<close>

fun split_slash :: "string \<Rightarrow> string list" where
  "split_slash [] = [[]]"
| "split_slash (c # cs) =
     (if c = CHR ''/'' then [] # split_slash cs
      else (case split_slash cs of
              [] \<Rightarrow> [[c]]
            | w # ws \<Rightarrow> (c # w) # ws))"

definition parse_parts :: "string \<Rightarrow> string list" where
  "parse_parts s = filter (\<lambda>c. c \<noteq> [] \<and> c \<noteq> ''.'') (split_slash s)"

definition joinpath :: "path \<Rightarrow> string \<Rightarrow> path" where
  "joinpath p s =
     (case s of
        [] \<Rightarrow> p
      | c # cs \<Rightarrow> (if c = CHR ''/'' then parse_parts s else p @ parse_parts s))"

text \<open>\<^verbatim>\<open>str(path)\<close> of an absolute path.\<close>

definition str_path :: "path \<Rightarrow> string" where
  "str_path p = CHR ''/'' # join ''/'' p"

subsection \<open>\<^verbatim>\<open>str(int)\<close>, \<^verbatim>\<open>html.escape\<close> and \<^verbatim>\<open>base64\<close>\<close>

definition digit :: "nat \<Rightarrow> char" where
  "digit d = ''0123456789'' ! d"

function str_nat :: "nat \<Rightarrow> string" where
  "str_nat n = (if n < 10 then [digit n] else str_nat (n div 10) @ [digit (n mod 10)])"
  by pat_completeness auto
termination
  by (relation "measure (\<lambda>n. n)") auto

declare str_nat.simps [simp del]

definition str_int :: "int \<Rightarrow> string" where
  "str_int i = (if i < 0 then CHR ''-'' # str_nat (nat (- i)) else str_nat (nat i))"

text \<open>
  \<^verbatim>\<open>html.escape(s)\<close> with its default \<^verbatim>\<open>quote=True\<close>: the ampersand first, then the
  angle brackets and both quotes; that is one replacement per character.
\<close>

definition escape_char :: "char \<Rightarrow> string" where
  "escape_char c =
     (if c = CHR ''&'' then ''&amp;''
      else if c = CHR ''<'' then ''&lt;''
      else if c = CHR ''>'' then ''&gt;''
      else if c = CHR 0x22 then ''&quot;''
      else if c = CHR 0x27 then ''&#x27;''
      else [c])"

definition escape :: "string \<Rightarrow> string" where
  "escape s = concat (map escape_char s)"

definition b64_alphabet :: string where
  "b64_alphabet = ''ABCDEFGHIJKLMNOPQRSTUVWXYZabcdefghijklmnopqrstuvwxyz0123456789+/''"

definition b64char :: "nat \<Rightarrow> char" where
  "b64char n = b64_alphabet ! n"

text \<open>
  \<^verbatim>\<open>base64.b64encode(b).decode("ascii")\<close>: three bytes make four characters of six
  bits each; a last group of one or two bytes is padded with \<^verbatim>\<open>=\<close>.
\<close>

fun b64encode :: "byte list \<Rightarrow> string" where
  "b64encode [] = []"
| "b64encode [a] =
     (let n = unat a * 65536
      in [b64char (n div 262144), b64char (n div 4096 mod 64), CHR ''='', CHR ''=''])"
| "b64encode [a, b] =
     (let n = unat a * 65536 + unat b * 256
      in [b64char (n div 262144), b64char (n div 4096 mod 64), b64char (n div 64 mod 64),
          CHR ''=''])"
| "b64encode (a # b # c # rest) =
     (let n = unat a * 65536 + unat b * 256 + unat c
      in [b64char (n div 262144), b64char (n div 4096 mod 64), b64char (n div 64 mod 64),
          b64char (n mod 64)] @ b64encode rest)"

text \<open>
  \<^verbatim>\<open>base64.b64decode\<close> on a padded text, the inverse the round trip is measured
  against: four characters make three bytes, a last group that ends in one or two
  \<^verbatim>\<open>=\<close> makes two bytes or one.
\<close>

fun index_of :: "'a \<Rightarrow> 'a list \<Rightarrow> nat option" where
  "index_of c [] = None"
| "index_of c (x # xs) = (if x = c then Some 0 else map_option Suc (index_of c xs))"

definition b64index :: "char \<Rightarrow> nat option" where
  "b64index c = index_of c b64_alphabet"

definition sextets :: "char list \<Rightarrow> nat option" where
  "sextets cs = fold (\<lambda>c acc. case (acc, b64index c) of
                               (Some m, Some k) \<Rightarrow> Some (m * 64 + k)
                             | _ \<Rightarrow> None) cs (Some 0)"

fun b64decode :: "string \<Rightarrow> byte list option" where
  "b64decode [] = Some []"
| "b64decode (c0 # c1 # c2 # c3 # rest) =
     (if rest = [] \<and> c3 = CHR ''='' \<and> c2 = CHR ''='' then
        (case sextets [c0, c1] of
           None \<Rightarrow> None
         | Some m \<Rightarrow> Some [word_of_nat (m div 16)])
      else if rest = [] \<and> c3 = CHR ''='' then
        (case sextets [c0, c1, c2] of
           None \<Rightarrow> None
         | Some m \<Rightarrow> Some [word_of_nat (m div 1024), word_of_nat (m div 4 mod 256)])
      else
        (case (sextets [c0, c1, c2, c3], b64decode rest) of
           (Some m, Some bs) \<Rightarrow>
             Some (word_of_nat (m div 65536) # word_of_nat (m div 256 mod 256)
                   # word_of_nat (m mod 256) # bs)
         | _ \<Rightarrow> None))"
| "b64decode cs = None"

subsection \<open>\<^verbatim>\<open>guess_mime\<close>, \<^verbatim>\<open>encode_data_uri\<close>, \<^verbatim>\<open>list_org_files\<close>\<close>

definition IMAGE_EXTS :: "string list" where
  "IMAGE_EXTS = [''.png'', ''.jpg'', ''.jpeg'', ''.bmp'', ''.gif'', ''.webp'']"

text \<open>
  The table of \<^verbatim>\<open>mimetypes.guess_type\<close> belongs to the Python installation, so the
  first component of its result is a parameter \<open>gt\<close> of the model: \<open>None\<close> when the
  library knows no type for the path.
\<close>

definition mime_table :: "(string \<times> string) list" where
  "mime_table =
     [(''.jpg'', ''image/jpeg''), (''.jpeg'', ''image/jpeg''),
      (''.png'', ''image/png''), (''.gif'', ''image/gif''),
      (''.bmp'', ''image/bmp''), (''.webp'', ''image/webp'')]"

definition guess_mime :: "(string \<Rightarrow> string option) \<Rightarrow> path \<Rightarrow> string" where
  "guess_mime gt p =
     (case gt (str_path p) of
        Some (c # cs) \<Rightarrow> c # cs
      | _ \<Rightarrow> (case map_of mime_table (lower (suffix p)) of
                Some m \<Rightarrow> m
              | None \<Rightarrow> ''application/octet-stream''))"

definition encode_data_uri ::
  "(string \<Rightarrow> string option) \<Rightarrow> filesystem \<Rightarrow> path \<Rightarrow> error + string" where
  "encode_data_uri gt fs p =
     (case read_bytes fs p of
        Inl e \<Rightarrow> Inl e
      | Inr b \<Rightarrow> Inr (''data:'' @ guess_mime gt p @ '';base64,'' @ b64encode b))"

definition list_org_files :: "filesystem \<Rightarrow> path \<Rightarrow> error + string list" where
  "list_org_files fs org_dir =
     (case iterdir fs org_dir of
        Inl e \<Rightarrow> Inl e
      | Inr ps \<Rightarrow>
          Inr (sort (map name
                 (filter (\<lambda>p. is_file fs p \<and> lower (suffix p) \<in> set IMAGE_EXTS) ps))))"


subsection \<open>\<^verbatim>\<open>build_html\<close>\<close>

definition DEFAULT_SUBFOLDERS :: "string list" where
  "DEFAULT_SUBFOLDERS = [''allResult'', ''est_center_map'', ''img_bb'']"

definition newline :: string where
  "newline = [CHR 0x0A]"

definition quote :: string where
  "quote = [CHR 0x27]"

text \<open>
  The style sheet, an f-string over the number of subfolders and the maximal height: the
  grid has one column for the original and \<^verbatim>\<open>repeat(len(subfolders), ...)\<close> more.
\<close>

definition css :: "nat \<Rightarrow> int \<Rightarrow> string" where
  "css n max_height = join newline
    ['''',
     ''    :root {'',
     ''      --cell-pad: 8px;'',
     ''      --card-bg: #0c1117;'',
     ''      --card-bd: #1e2530;'',
     ''      --missing-bg: #3f1d1d;'',
     ''      --missing-bd: #7f1d1d;'',
     ''      --text-dim: #a1adb9;'',
     ''    }'',
     ''    html,body{background:#0b0c10;color:#e6edf3;margin:0}'',
     ''    .page{max-width:1400px;margin:0 auto;padding:24px}'',
     ''    h1{font-size:22px;margin:0 0 8px}'',
     ''    .meta{font-size:12px;color:#9da7b3;margin-bottom:18px}'',
     ''    .block{background:#0e141b;border:1px solid #1f2630;border-radius:14px;margin:18px 0;overflow:hidden}'',
     ''    .block_head{display:flex;justify-content:space-between;align-items:center;padding:12px 16px;background:#111821;border-bottom:1px solid #1f2630}'',
     ''    .fname{font-weight:700}'',
     ''    .chips{font-size:12px;color:#9da7b3}'',
     ''    .grid{display:grid;gap:10px;padding:12px 12px 18px 12px;grid-template-columns:'',
     ''           minmax(220px, 1fr) repeat('' @ str_int (int n) @ '', minmax(220px, 1fr));}'',
     ''    .hdr{font-size:12px;color:#9cd1ff;align-self:end}'',
     ''    .cell{background:var(--card-bg);border:1px solid var(--card-bd);border-radius:10px;padding:var(--cell-pad)}'',
     ''    .label{font-size:12px;color:var(--text-dim);margin:2px 0 6px 0}'',
     ''    img{max-height:'' @ str_int max_height @ ''px;max-width:100%;display:block;border-radius:6px}'',
     ''    .missing{font-size:12px;color:#fca5a5;padding:6px 8px;border:1px solid var(--missing-bd);'',
     ''              background:var(--missing-bg);border-radius:6px}'',
     ''    .center{display:flex;align-items:center;justify-content:center;min-height:60px}'',
     ''    .placeholder{background:transparent;border:0}'',
     ''    '']"

text \<open>
  The source appends to the list \<^verbatim>\<open>parts\<close> and an exception of \<^verbatim>\<open>encode_data_uri\<close>
  leaves the function at once. In the model every stage returns the parts it appends or
  its error, and \<open>collect\<close> runs the stages in order up to the first error.
\<close>

fun collect :: "(error + 'a list) list \<Rightarrow> error + 'a list" where
  "collect [] = Inr []"
| "collect (Inl e # rs) = Inl e"
| "collect (Inr xs # rs) = (case collect rs of Inl e \<Rightarrow> Inl e | Inr ys \<Rightarrow> Inr (xs @ ys))"

definition code_tag :: "string \<Rightarrow> string" where
  "code_tag s = ''<code>'' @ escape s @ ''</code>''"

text \<open>Lines 93 to 106: the document head and the line of directories.\<close>

definition head_parts :: "path \<Rightarrow> path list \<Rightarrow> string list \<Rightarrow> string \<Rightarrow> int \<Rightarrow> string list" where
  "head_parts org_dir models subfolders title max_height =
     [''<!DOCTYPE html>'',
      ''<html lang='ja'><head><meta charset='utf-8'>'',
      ''<title>'' @ escape title @ ''</title>'',
      ''<meta name='viewport' content='width=device-width,initial-scale=1'>'',
      ''<style>'', css (length subfolders) max_height, ''</style>'',
      ''</head><body><div class='page'>'',
      ''<h1>'' @ escape title @ ''</h1>'',
      ''<div class='meta'>'',
      ''Org: <code>'' @ escape (str_path org_dir) @ ''</code> | '',
      ''Models: '' @ join '', '' (map (\<lambda>m. code_tag (str_path m)) models) @ '' | '',
      ''Folders: '' @ join '', '' (map code_tag subfolders),
      ''</div>'']"

text \<open>Lines 110 to 121: the head of a section and the header row of its grid.\<close>

definition hdr_cell :: "string \<Rightarrow> string" where
  "hdr_cell sub = ''<div class='hdr'>'' @ escape sub @ ''</div>''"

definition section_head :: "string list \<Rightarrow> string \<Rightarrow> string list" where
  "section_head subfolders fname =
     [''<section class='block'>'',
      ''<div class='block_head'>'',
      ''<div class='fname'>'' @ escape fname @ ''</div>'',
      ''<div class='chips'>org + per-folder model comparison</div>'',
      ''</div>'',
      ''<div class='grid'>'',
      ''<div class='hdr'></div>'']
     @ map hdr_cell subfolders"

definition img_tag :: "string \<Rightarrow> string \<Rightarrow> string" where
  "img_tag uri alt = ''<img src='' @ quote @ uri @ quote @ '' alt='' @ quote @ alt @ quote @ ''>''"

definition cell_open :: string where
  "cell_open = ''<div class='cell'>''"

definition div_close :: string where
  "div_close = ''</div>''"

definition original_missing :: string where
  "original_missing = ''<div class='cell center'><div class='missing'>Original MISSING</div></div>''"

definition missing_marker :: string where
  "missing_marker = ''<div class='missing'>MISSING</div>''"

definition no_model :: string where
  "no_model = ''<div class='cell center'><div class='missing'>No model</div></div>''"

definition placeholder :: string where
  "placeholder = ''<div class='cell placeholder'></div>''"

text \<open>Lines 125 to 132: the cell of the original image.\<close>

definition org_cell ::
  "(string \<Rightarrow> string option) \<Rightarrow> filesystem \<Rightarrow> path \<Rightarrow> string \<Rightarrow> error + string list" where
  "org_cell gt fs org_dir fname =
     (let org_path = joinpath org_dir fname
      in if exists_path fs org_path then
           (case encode_data_uri gt fs org_path of
              Inl e \<Rightarrow> Inl e
            | Inr uri \<Rightarrow>
                Inr [cell_open, ''<div class='label'>org_img</div>'',
                     img_tag uri (''org:'' @ escape fname), div_close])
         else Inr [original_missing])"

text \<open>Lines 137 to 144 and 154 to 161: the cell of one model and one subfolder.\<close>

definition label_line :: "string \<Rightarrow> string \<Rightarrow> string" where
  "label_line label sub = ''<div class='label'>'' @ escape label @ '' / '' @ escape sub @ ''</div>''"

definition model_cell ::
  "(string \<Rightarrow> string option) \<Rightarrow> filesystem \<Rightarrow> path \<Rightarrow> string \<Rightarrow> string \<Rightarrow> string
     \<Rightarrow> error + string list" where
  "model_cell gt fs m label sub fname =
     (let p = joinpath (joinpath m sub) fname
      in if exists_path fs p then
           (case encode_data_uri gt fs p of
              Inl e \<Rightarrow> Inl e
            | Inr uri \<Rightarrow>
                Inr [cell_open, label_line label sub,
                     img_tag uri (escape label @ ''/'' @ escape sub @ '':'' @ escape fname),
                     div_close])
         else Inr [cell_open, label_line label sub, missing_marker, div_close])"

definition model_cells ::
  "(string \<Rightarrow> string option) \<Rightarrow> filesystem \<Rightarrow> path \<Rightarrow> string \<Rightarrow> string list \<Rightarrow> string
     \<Rightarrow> error + string list" where
  "model_cells gt fs m label subfolders fname =
     collect (map (\<lambda>sub. model_cell gt fs m label sub fname) subfolders)"

text \<open>Lines 134 to 148: the rest of the first row.\<close>

definition first_row ::
  "(string \<Rightarrow> string option) \<Rightarrow> filesystem \<Rightarrow> path list \<Rightarrow> string list \<Rightarrow> string list \<Rightarrow> string
     \<Rightarrow> error + string list" where
  "first_row gt fs models model_labels subfolders fname =
     (case (models, model_labels) of
        (m0 # ms, label0 # ls) \<Rightarrow> model_cells gt fs m0 label0 subfolders fname
      | _ \<Rightarrow> Inr (map (\<lambda>sub. no_model) subfolders))"

text \<open>Lines 151 to 161: one row per further model, under an empty cell.\<close>

definition model_row ::
  "(string \<Rightarrow> string option) \<Rightarrow> filesystem \<Rightarrow> string list \<Rightarrow> string \<Rightarrow> path \<times> string
     \<Rightarrow> error + string list" where
  "model_row gt fs subfolders fname ml =
     collect [Inr [placeholder], model_cells gt fs (fst ml) (snd ml) subfolders fname]"

definition other_rows ::
  "(string \<Rightarrow> string option) \<Rightarrow> filesystem \<Rightarrow> path list \<Rightarrow> string list \<Rightarrow> string list \<Rightarrow> string
     \<Rightarrow> error + string list" where
  "other_rows gt fs models model_labels subfolders fname =
     collect (map (model_row gt fs subfolders fname) (zip (tl models) (tl model_labels)))"

text \<open>Lines 110 to 164: the body of the loop over the reference files.\<close>

definition section_parts ::
  "(string \<Rightarrow> string option) \<Rightarrow> filesystem \<Rightarrow> path \<Rightarrow> path list \<Rightarrow> string list \<Rightarrow> string
     \<Rightarrow> error + string list" where
  "section_parts gt fs org_dir models subfolders fname =
     (let model_labels = map name models
      in collect
           [Inr (section_head subfolders fname),
            org_cell gt fs org_dir fname,
            first_row gt fs models model_labels subfolders fname,
            other_rows gt fs models model_labels subfolders fname,
            Inr [div_close, ''</section>'']])"

definition build_parts ::
  "(string \<Rightarrow> string option) \<Rightarrow> filesystem \<Rightarrow> path \<Rightarrow> path list \<Rightarrow> string list \<Rightarrow> string \<Rightarrow> int
     \<Rightarrow> error + string list" where
  "build_parts gt fs org_dir models subfolders title max_height =
     (case list_org_files fs org_dir of
        Inl e \<Rightarrow> Inl e
      | Inr org_files \<Rightarrow>
          collect
            (Inr (head_parts org_dir models subfolders title max_height)
             # map (section_parts gt fs org_dir models subfolders) org_files
             @ [Inr [''</div></body></html>'']]))"

definition build_html ::
  "(string \<Rightarrow> string option) \<Rightarrow> filesystem \<Rightarrow> path \<Rightarrow> path list \<Rightarrow> string list \<Rightarrow> string \<Rightarrow> int
     \<Rightarrow> error + string" where
  "build_html gt fs org_dir models subfolders title max_height =
     (case build_parts gt fs org_dir models subfolders title max_height of
        Inl e \<Rightarrow> Inl e
      | Inr parts \<Rightarrow> Inr (join newline parts))"

subsection \<open>\<^verbatim>\<open>main\<close>\<close>

text \<open>
  The parsed command line. The paths are taken as absolute, so that \<^verbatim>\<open>resolve\<close> leaves
  them as they are; \<open>folders\<close> is \<open>None\<close> when \<^verbatim>\<open>--folders\<close> is not given.
\<close>

record arguments =
  args_org :: path
  args_models :: "path list"
  args_folders :: "string list option"
  args_out :: path
  args_title :: string
  args_max_height :: int

text \<open>
  How a run ends: the confirmation line on standard output, \<^verbatim>\<open>SystemExit\<close> with its
  message, or an exception nobody catches. Only the first one is exit status 0.
\<close>

datatype outcome = Success string | SystemExit string | Uncaught error

fun exit_status :: "outcome \<Rightarrow> nat" where
  "exit_status (Success msg) = 0"
| "exit_status (SystemExit msg) = 1"
| "exit_status (Uncaught e) = 1"

definition parent :: "path \<Rightarrow> path" where
  "parent p = butlast p"

definition create_dir :: "filesystem \<Rightarrow> path \<Rightarrow> filesystem" where
  "create_dir fs d =
     fs\<lparr>node_at := (node_at fs)(d \<mapsto> Directory),
        entries := (entries fs)(parent d := entries fs (parent d) @ [name d])\<rparr>"

text \<open>
  \<^verbatim>\<open>Path.mkdir(parents=True, exist_ok=True)\<close>: an existing directory is left alone, an
  existing file raises, and a missing parent is made first.
\<close>

function mkdir_parents :: "filesystem \<Rightarrow> path \<Rightarrow> error + filesystem" where
  "mkdir_parents fs d =
     (case node_at fs d of
        Some Directory \<Rightarrow> Inr fs
      | Some (File b) \<Rightarrow> Inl FileExistsError
      | None \<Rightarrow>
          (if d = [] then Inl FileNotFoundError
           else (case node_at fs (parent d) of
                   Some Directory \<Rightarrow> Inr (create_dir fs d)
                 | Some (File b) \<Rightarrow> Inl NotADirectoryError
                 | None \<Rightarrow>
                     (case mkdir_parents fs (parent d) of
                        Inl e \<Rightarrow> Inl e
                      | Inr fs' \<Rightarrow> Inr (create_dir fs' d)))))"
  by pat_completeness auto
termination
  by (relation "measure (\<lambda>(fs, d). length d)") (auto simp: parent_def)

declare mkdir_parents.simps [simp del]

text \<open>
  \<^verbatim>\<open>Path.write_text(s, encoding="utf-8")\<close>: the file is made or replaced; a directory at
  the path, or a parent that is no directory, raises. The bytes of the model's strings are
  the UTF-8 encoding already.
\<close>

definition encode_utf8 :: "string \<Rightarrow> byte list" where
  "encode_utf8 s = map of_char s"

definition write_text :: "filesystem \<Rightarrow> path \<Rightarrow> string \<Rightarrow> error + filesystem" where
  "write_text fs p s =
     (case node_at fs p of
        Some Directory \<Rightarrow> Inl IsADirectoryError
      | old \<Rightarrow>
          (case node_at fs (parent p) of
             None \<Rightarrow> Inl FileNotFoundError
           | Some (File b) \<Rightarrow> Inl NotADirectoryError
           | Some Directory \<Rightarrow>
               Inr (fs\<lparr>node_at := (node_at fs)(p \<mapsto> File (encode_utf8 s)),
                       entries := (if old = None
                                   then (entries fs)(parent p := entries fs (parent p) @ [name p])
                                   else entries fs)\<rparr>)))"

definition main ::
  "(string \<Rightarrow> string option) \<Rightarrow> filesystem \<Rightarrow> arguments \<Rightarrow> outcome \<times> filesystem" where
  "main gt fs args =
     (if \<not> is_dir fs (args_org args) then
        (SystemExit (''[ERROR] org dir not found or not a directory: '' @ str_path (args_org args)), fs)
      else
        (case find (\<lambda>m. \<not> is_dir fs m) (args_models args) of
           Some m \<Rightarrow>
             (SystemExit (''[ERROR] model dir not found or not a directory: '' @ str_path m), fs)
         | None \<Rightarrow>
             (let subfolders = (case args_folders args of
                                  Some (f # fl) \<Rightarrow> f # fl
                                | _ \<Rightarrow> DEFAULT_SUBFOLDERS)
              in case build_html gt fs (args_org args) (args_models args) subfolders (args_title args)
                        (args_max_height args) of
                   Inl e \<Rightarrow> (Uncaught e, fs)
                 | Inr html_str \<Rightarrow>
                     (case mkdir_parents fs (parent (args_out args)) of
                        Inl e \<Rightarrow> (Uncaught e, fs)
                      | Inr fs1 \<Rightarrow>
                          (case write_text fs1 (args_out args) html_str of
                             Inl e \<Rightarrow> (Uncaught e, fs1)
                           | Inr fs2 \<Rightarrow>
                               (Success (''[OK] Wrote: '' @ str_path (args_out args)), fs2))))))"

subsection \<open>Reading the rendered parts\<close>

text \<open>
  What the statements below measure on the list of parts: which parts open an image tag, a
  grid item (a header cell or a cell) or the title of a section, and which characters of a
  part are markup.
\<close>

fun starts_with :: "string \<Rightarrow> string \<Rightarrow> bool" where
  "starts_with [] s = True"
| "starts_with (p # ps) [] = False"
| "starts_with (p # ps) (c # cs) = (p = c \<and> starts_with ps cs)"

definition is_img_tag :: "string \<Rightarrow> bool" where
  "is_img_tag part = starts_with ''<img '' part"

definition is_grid_item :: "string \<Rightarrow> bool" where
  "is_grid_item part =
     (starts_with ''<div class='cell'' part \<or> starts_with ''<div class='hdr'>'' part)"

definition grid_items :: "string list \<Rightarrow> string list" where
  "grid_items parts = filter is_grid_item parts"

definition is_fname_line :: "string \<Rightarrow> bool" where
  "is_fname_line part = starts_with ''<div class='fname'>'' part"

text \<open>
  The extension of a name, in the words of the specification: the name ends in the
  extension, a capital standing for its small letter, after a stem that is not empty.
\<close>

definition letter_pairs :: "(char \<times> char) list" where
  "letter_pairs = zip ''ABCDEFGHIJKLMNOPQRSTUVWXYZ'' ''abcdefghijklmnopqrstuvwxyz''"

definition ci_eq :: "string \<Rightarrow> string \<Rightarrow> bool" where
  "ci_eq x e = list_all2 (\<lambda>c l. c = l \<or> (c, l) \<in> set letter_pairs) x e"

definition ends_with_ext :: "string \<Rightarrow> string \<Rightarrow> bool" where
  "ends_with_ext e n = (length e < length n \<and> ci_eq (drop (length n - length e) n) e)"

definition extension_mime :: "string \<Rightarrow> string" where
  "extension_mime n =
     (if ends_with_ext ''.jpg'' n \<or> ends_with_ext ''.jpeg'' n then ''image/jpeg''
      else if ends_with_ext ''.png'' n then ''image/png''
      else if ends_with_ext ''.gif'' n then ''image/gif''
      else if ends_with_ext ''.bmp'' n then ''image/bmp''
      else if ends_with_ext ''.webp'' n then ''image/webp''
      else ''application/octet-stream'')"

definition slashed :: "path \<Rightarrow> string" where
  "slashed p = concat (map (\<lambda>c. CHR ''/'' # c) p)"

definition not_capital :: "char \<Rightarrow> bool" where
  "not_capital l = (l \<notin> set ''ABCDEFGHIJKLMNOPQRSTUVWXYZ'')"

text \<open>An extension in the sense of the table: a dot, then at least one more character, none of them a dot or a capital.\<close>

definition ext_shape :: "string \<Rightarrow> bool" where
  "ext_shape e = (\<exists>r. e = CHR ''.'' # r \<and> r \<noteq> [] \<and> CHR ''.'' \<notin> set r \<and> (\<forall>l\<in>set e. not_capital l))"

definition has_image_ext :: "string \<Rightarrow> bool" where
  "has_image_ext n =
     (\<exists>e\<in>set [''.png'', ''.jpg'', ''.jpeg'', ''.bmp'', ''.gif'', ''.webp'']. ends_with_ext e n)"



text \<open>
  A single path component, as the operating system names a directory entry: not empty,
  not \<^verbatim>\<open>.\<close>, and without a slash.
\<close>

definition plain :: "string \<Rightarrow> bool" where
  "plain s = (s \<noteq> [] \<and> s \<noteq> ''.'' \<and> CHR ''/'' \<notin> set s)"

definition is_markup_char :: "char \<Rightarrow> bool" where
  "is_markup_char c = (c = CHR ''<'' \<or> c = CHR ''>'' \<or> c = CHR 0x22 \<or> c = CHR 0x27)"

definition markup_chars :: "string \<Rightarrow> string" where
  "markup_chars s = filter is_markup_char s"

subsection \<open>A small filesystem to run the model on\<close>

definition example_fs :: filesystem where
  "example_fs =
     \<lparr>node_at = map_of
        [([''org''], Directory),
         ([''org'', ''notes.txt''], File [104, 105]),
         ([''org'', ''b.JPG''], File [255]),
         ([''org'', ''sub''], Directory),
         ([''org'', ''a.png''], File [1, 2, 3]),
         ([''m1''], Directory),
         ([''m1'', ''x''], Directory),
         ([''m1'', ''x'', ''a.png''], File [9, 8, 7, 6]),
         ([''m2''], Directory)],
      entries = (\<lambda>d. if d = [''org''] then [''notes.txt'', ''b.JPG'', ''sub'', ''a.png'']
                     else if d = [''m1''] then [''x'']
                     else if d = [''m1'', ''x''] then [''a.png'']
                     else [])\<rparr>"

text \<open>A library that knows one path; every other file is left to the script's table.\<close>

definition example_gt :: "string \<Rightarrow> string option" where
  "example_gt s = (if s = ''/m1/x/a.png'' then Some ''image/png'' else None)"

section \<open>Base64 and the data URI\<close>

lemma sext_hi: "n div 262144 * 64 + n div 4096 mod 64 = n div (4096::nat)"
proof -
  have "n div 262144 = n div 4096 div 64" by (simp add: div_mult2_eq [symmetric])
  then show ?thesis by simp
qed

lemma sext_mid: "n div 4096 * 64 + n div 64 mod 64 = n div (64::nat)"
proof -
  have "n div 4096 = n div 64 div 64" by (simp add: div_mult2_eq [symmetric])
  then show ?thesis by simp
qed

lemma sext_all:
  "((n div 262144 * 64 + n div 4096 mod 64) * 64 + n div 64 mod 64) * 64 + n mod 64 = (n::nat)"
  by (simp only: sext_hi sext_mid div_mult_mod_eq)

lemma sext_lt: "n < 16777216 \<Longrightarrow> n div 262144 < (64::nat)"
  by (simp add: less_mult_imp_div_less)

lemma grp1: "(a * 65536) div 4096 div 16 = (a::nat)"
  by simp

lemma grp2a: "b < 256 \<Longrightarrow> (a * 65536 + b * 256) div 64 div 1024 = (a::nat)"
  by simp

lemma grp2b: "b < 256 \<Longrightarrow> (a * 65536 + b * 256) div 64 div 4 mod 256 = (b::nat)"
  by simp

lemma grp3a: "b < 256 \<Longrightarrow> c < 256 \<Longrightarrow> (a * 65536 + b * 256 + c) div 65536 = (a::nat)"
  by simp

lemma div_shift: "c < 256 \<Longrightarrow> (q * 256 + c) div 256 = (q::nat)"
  by simp

lemma mod_shift: "c < 256 \<Longrightarrow> (q * 256 + c) mod 256 = (c::nat)"
  by simp

lemma grp3_shape: "a * 65536 + b * 256 + c = (a * 256 + b) * 256 + (c::nat)"
  by simp

lemma grp3b: "b < 256 \<Longrightarrow> c < 256 \<Longrightarrow> (a * 65536 + b * 256 + c) div 256 mod 256 = (b::nat)"
  by (simp only: grp3_shape div_shift mod_shift)

lemma grp3c: "c < 256 \<Longrightarrow> (a * 65536 + b * 256 + c) mod 256 = (c::nat)"
  by (simp only: grp3_shape mod_shift)

lemma index_of_nth: "distinct xs \<Longrightarrow> i < length xs \<Longrightarrow> index_of (xs ! i) xs = Some i"
proof (induction xs arbitrary: i)
  case Nil
  then show ?case by simp
next
  case (Cons x xs)
  show ?case
  proof (cases i)
    case 0
    then show ?thesis by simp
  next
    case (Suc j)
    with Cons.prems have "xs ! j \<in> set xs" "x \<notin> set xs" by auto
    then have "x \<noteq> xs ! j" by auto
    with Cons Suc show ?thesis by simp
  qed
qed

lemma distinct_b64_alphabet: "distinct b64_alphabet"
  by (simp add: b64_alphabet_def)

lemma length_b64_alphabet: "length b64_alphabet = 64"
  by (simp add: b64_alphabet_def)

lemma pad_not_in_alphabet: "CHR ''='' \<notin> set b64_alphabet"
  by (simp add: b64_alphabet_def)

lemma b64index_b64char: "n < 64 \<Longrightarrow> b64index (b64char n) = Some n"
  by (simp add: b64index_def b64char_def index_of_nth distinct_b64_alphabet length_b64_alphabet)

lemma b64char_not_pad: "n < 64 \<Longrightarrow> b64char n \<noteq> CHR ''=''"
  by (metis b64char_def length_b64_alphabet nth_mem pad_not_in_alphabet)

lemma unat_byte: "unat (a :: byte) < 256"
  using unsigned_less [of a] by simp

lemma sextets2: "i < 64 \<Longrightarrow> j < 64 \<Longrightarrow> sextets [b64char i, b64char j] = Some (i * 64 + j)"
  by (simp add: sextets_def b64index_b64char)

lemma sextets3: "i < 64 \<Longrightarrow> j < 64 \<Longrightarrow> k < 64 \<Longrightarrow>
  sextets [b64char i, b64char j, b64char k] = Some ((i * 64 + j) * 64 + k)"
  by (simp add: sextets_def b64index_b64char)

lemma sextets4: "i < 64 \<Longrightarrow> j < 64 \<Longrightarrow> k < 64 \<Longrightarrow> l < 64 \<Longrightarrow>
  sextets [b64char i, b64char j, b64char k, b64char l] = Some (((i * 64 + j) * 64 + k) * 64 + l)"
  by (simp add: sextets_def b64index_b64char)

lemma group_bound: "a < 256 \<Longrightarrow> b < 256 \<Longrightarrow> c < 256 \<Longrightarrow> a * 65536 + b * 256 + c < (16777216::nat)"
  by simp

lemma b64decode_group1: "b64decode (b64encode [a]) = Some [a]"
proof -
  define n where "n = unat a * 65536"
  have a: "unat a < 256" by (rule unat_byte)
  then have n: "n < 16777216" by (simp add: n_def)
  have s0: "n div 262144 < 64" using n by (rule sext_lt)
  have s1: "n div 4096 mod 64 < 64" by simp
  have enc: "b64encode [a] = [b64char (n div 262144), b64char (n div 4096 mod 64), CHR ''='', CHR ''='']"
    by (simp add: n_def Let_def)
  have "n div 4096 div 16 = unat a" unfolding n_def by (rule grp1)
  then show ?thesis
    by (simp only: enc b64decode.simps sextets2 [OF s0 s1] sext_hi) simp
qed

lemma b64decode_group2: "b64decode (b64encode [a, b]) = Some [a, b]"
proof -
  define n where "n = unat a * 65536 + unat b * 256"
  have a: "unat a < 256" and b: "unat b < 256" by (rule unat_byte)+
  then have n: "n < 16777216" by (simp add: n_def)
  have s0: "n div 262144 < 64" using n by (rule sext_lt)
  have s1: "n div 4096 mod 64 < 64" and s2: "n div 64 mod 64 < 64" by simp_all
  have enc: "b64encode [a, b] =
      [b64char (n div 262144), b64char (n div 4096 mod 64), b64char (n div 64 mod 64), CHR ''='']"
    by (simp add: n_def Let_def)
  have x: "n div 64 div 1024 = unat a" unfolding n_def using b by (rule grp2a)
  have y: "n div 64 div 4 mod 256 = unat b" unfolding n_def using b by (rule grp2b)
  have np: "b64char (n div 64 mod 64) \<noteq> CHR ''=''" using s2 by (rule b64char_not_pad)
  show ?thesis
    using x y np
    by (simp only: enc b64decode.simps sextets3 [OF s0 s1 s2] sext_hi sext_mid) simp
qed

lemma b64decode_group3:
  assumes "b64decode (b64encode rest) = Some rest"
  shows "b64decode (b64encode (a # b # c # rest)) = Some (a # b # c # rest)"
proof -
  define n where "n = unat a * 65536 + unat b * 256 + unat c"
  have a: "unat a < 256" and b: "unat b < 256" and c: "unat c < 256" by (rule unat_byte)+
  then have n: "n < 16777216" by (simp add: n_def)
  have s0: "n div 262144 < 64" using n by (rule sext_lt)
  have s1: "n div 4096 mod 64 < 64" and s2: "n div 64 mod 64 < 64" and s3: "n mod 64 < 64"
    by simp_all
  have enc: "b64encode (a # b # c # rest) =
      b64char (n div 262144) # b64char (n div 4096 mod 64) # b64char (n div 64 mod 64)
        # b64char (n mod 64) # b64encode rest"
    by (simp add: n_def Let_def)
  have x: "n div 65536 = unat a" unfolding n_def using b c by (rule grp3a)
  have y: "n div 256 mod 256 = unat b" unfolding n_def using b c by (rule grp3b)
  have z: "n mod 256 = unat c" unfolding n_def using c by (rule grp3c)
  have np: "b64char (n mod 64) \<noteq> CHR ''=''" using s3 by (rule b64char_not_pad)
  show ?thesis
    using x y z np assms
    by (simp only: enc b64decode.simps sextets4 [OF s0 s1 s2 s3] sext_all) simp
qed

lemma b64_roundtrip: "b64decode (b64encode bs) = Some bs"
proof (induction bs rule: b64encode.induct)
  case 1
  show ?case by simp
next
  case (2 a)
  show ?case by (rule b64decode_group1)
next
  case (3 a b)
  show ?case by (rule b64decode_group2)
next
  case (4 a b c rest)
  from 4 [OF refl] show ?case by (rule b64decode_group3)
qed

subsection \<open>The MIME type\<close>

lemma distinct_capitals: "distinct (map fst letter_pairs)"
  by (simp add: letter_pairs_def)

lemma capitals: "map fst letter_pairs = ''ABCDEFGHIJKLMNOPQRSTUVWXYZ''"
  by (simp add: letter_pairs_def)

lemma lower_char_map_of:
  "lower_char c = (case map_of letter_pairs c of Some l \<Rightarrow> l | None \<Rightarrow> c)"
  by (simp add: lower_char_def letter_pairs_def)

lemma lower_char_eq:
  assumes "not_capital l"
  shows "(lower_char c = l) = (c = l \<or> (c, l) \<in> set letter_pairs)"
proof (cases "map_of letter_pairs c")
  case None
  then have "c \<notin> fst ` set letter_pairs" by (simp add: map_of_eq_None_iff)
  then have "(c, l) \<notin> set letter_pairs" by force
  with None show ?thesis by (auto simp: lower_char_map_of)
next
  case (Some l')
  then have in': "(c, l') \<in> set letter_pairs" by (rule map_of_SomeD)
  then have "c \<in> set (map fst letter_pairs)" by force
  with assms have "c \<noteq> l" unfolding capitals not_capital_def by blast
  moreover have "(c, l) \<in> set letter_pairs \<longleftrightarrow> l = l'"
    using Some distinct_capitals by (metis map_of_eq_Some_iff option.inject)
  ultimately show ?thesis using Some by (auto simp: lower_char_map_of)
qed

lemma lower_eq_ci:
  "\<forall>l\<in>set e. not_capital l \<Longrightarrow> (lower x = e) = ci_eq x e"
proof (induction x arbitrary: e)
  case Nil
  then show ?case by (auto simp: lower_def ci_eq_def)
next
  case (Cons c x)
  show ?case
  proof (cases e)
    case Nil
    then show ?thesis by (simp add: lower_def ci_eq_def)
  next
    case (Cons l e')
    with Cons.prems have l: "not_capital l" and e': "\<forall>l\<in>set e'. not_capital l" by simp_all
    from Cons.IH [OF e'] lower_char_eq [OF l, of c] Cons show ?thesis
      by (simp add: lower_def ci_eq_def)
  qed
qed

lemma rfind_None: "c \<notin> set xs \<Longrightarrow> rfind c xs = None"
  by (induction xs) auto

lemma rfind_last:
  "c \<notin> set zs \<Longrightarrow> rfind c (ys @ c # zs) = Some (length ys)"
  by (induction ys) (simp_all add: rfind_None)

lemma rfind_Some_D:
  "rfind c xs = Some i \<Longrightarrow> i < length xs \<and> xs ! i = c"
  by (induction xs arbitrary: i) (auto split: option.splits if_splits)

lemma name_snoc: "name (d @ [n]) = n"
  by (simp add: name_def)

lemma lower_dot: "lower_char c = CHR ''.'' \<longleftrightarrow> c = CHR ''.''"
proof -
  have "not_capital (CHR ''.'')" by (simp add: not_capital_def)
  from lower_char_eq [OF this, of c] show ?thesis
    by (auto simp: letter_pairs_def)
qed

lemma lower_dot': "CHR ''.'' = lower_char c \<longleftrightarrow> c = CHR ''.''"
  using lower_dot [of c] by auto

lemma lower_no_dot: "CHR ''.'' \<notin> set (lower xs) \<longleftrightarrow> CHR ''.'' \<notin> set xs"
  by (auto simp: lower_def image_iff lower_dot')

lemma suffix_ext:
  assumes "ext_shape e"
  shows "(lower (suffix (d @ [n])) = e) = ends_with_ext e n"
proof
  from assms obtain r where e: "e = CHR ''.'' # r" and r: "r \<noteq> []" "CHR ''.'' \<notin> set r"
    and nc: "\<forall>l\<in>set e. not_capital l"
    unfolding ext_shape_def by blast
  {
    assume "ends_with_ext e n"
    then have len: "length e < length n"
      and ci: "ci_eq (drop (length n - length e) n) e"
      by (simp_all add: ends_with_ext_def)
    define k where "k = length n - length e"
    define x where "x = drop k n"
    from ci have lx: "lower x = e" unfolding x_def k_def using lower_eq_ci [OF nc] by simp
    then have "length x = length e" by (metis length_map lower_def)
    with e obtain x0 xr where x: "x = x0 # xr" by (cases x) auto
    with lx e have "lower_char x0 = CHR ''.''" and lr: "lower xr = r" by (simp_all add: lower_def)
    then have x0: "x0 = CHR ''.''" by (simp add: lower_dot)
    from lr r(2) have nd: "CHR ''.'' \<notin> set xr" using lower_no_dot [of xr] by simp
    from lr r(1) have xr: "xr \<noteq> []" by (auto simp: lower_def)
    have n: "n = take k n @ CHR ''.'' # xr" using x x0 x_def by (metis append_take_drop_id)
    have k: "0 < k" "k < length n" using len e by (simp_all add: k_def)
    then have lt: "length (take k n) = k" by simp
    have "rfind (CHR ''.'') n = Some k"
      using rfind_last [OF nd, of "take k n"] n lt by metis
    moreover have "Suc k < length n"
      using n xr lt by (metis length_append length_Cons length_greater_0_conv
          add_Suc_right less_add_same_cancel1 Suc_less_eq)
    ultimately have "suffix (d @ [n]) = x"
      using k by (simp add: suffix_def name_snoc x_def)
    with lx show "lower (suffix (d @ [n])) = e" by simp
  }
  {
    assume l: "lower (suffix (d @ [n])) = e"
    with e have ne: "suffix (d @ [n]) \<noteq> []" by (auto simp: lower_def)
    then obtain i where i: "rfind (CHR ''.'') n = Some i" "0 < i" "Suc i < length n"
      and s: "suffix (d @ [n]) = drop i n"
      by (auto simp: suffix_def name_snoc split: option.splits if_splits)
    from l s have "length e = length n - i" by (metis length_drop length_map lower_def)
    with i have k: "length n - length e = i" and len: "length e < length n" by simp_all
    from l s have "ci_eq (drop i n) e" using lower_eq_ci [OF nc] by simp
    with k len show "ends_with_ext e n" by (simp add: ends_with_ext_def)
  }
qed

lemma ext_shapes:
  "ext_shape ''.jpg''" "ext_shape ''.jpeg''" "ext_shape ''.png''"
  "ext_shape ''.gif''" "ext_shape ''.bmp''" "ext_shape ''.webp''"
  by (simp_all add: ext_shape_def not_capital_def)

lemma table_is_extension_mime:
  "(case map_of mime_table (lower (suffix (d @ [n]))) of
      Some m \<Rightarrow> m
    | None \<Rightarrow> ''application/octet-stream'') = extension_mime n"
  unfolding extension_mime_def
    suffix_ext [OF ext_shapes(1), of d n, symmetric]
    suffix_ext [OF ext_shapes(2), of d n, symmetric]
    suffix_ext [OF ext_shapes(3), of d n, symmetric]
    suffix_ext [OF ext_shapes(4), of d n, symmetric]
    suffix_ext [OF ext_shapes(5), of d n, symmetric]
    suffix_ext [OF ext_shapes(6), of d n, symmetric]
  by (simp add: mime_table_def)

lemma join_prefixed: "p \<noteq> [] \<Longrightarrow> sep @ join sep p = concat (map (\<lambda>c. sep @ c) p)"
  by (induction sep p rule: join.induct) simp_all

lemma join_slashed: "p \<noteq> [] \<Longrightarrow> CHR ''/'' # join ''/'' p = slashed p"
  using join_prefixed [of p "''/''"] by (simp add: slashed_def)

lemma str_path_slashed: "str_path (d @ [n]) = slashed (d @ [n])"
  by (simp add: str_path_def join_slashed)

lemma guess_mime_served:
  "guess_mime gt (d @ [n]) =
     (case gt (slashed (d @ [n])) of
        Some (c # cs) \<Rightarrow> c # cs
      | _ \<Rightarrow> extension_mime n)"
  unfolding guess_mime_def str_path_slashed table_is_extension_mime
  by (rule refl)

text \<open>
  Claim C3. For a path that holds a regular file, \<open>encode_data_uri\<close> returns
  \<^verbatim>\<open>data:<mime>;base64,<payload>\<close>. The payload is the Base64 text of the file's bytes,
  and decoding it gives back exactly these bytes. The MIME type is the library's guess
  for the path written with slashes, when it has one; else the type of the name's
  extension (\<^verbatim>\<open>.jpg\<close> and \<^verbatim>\<open>.jpeg\<close>, \<^verbatim>\<open>.png\<close>, \<^verbatim>\<open>.gif\<close>, \<^verbatim>\<open>.bmp\<close>, \<^verbatim>\<open>.webp\<close>, in any case
  of the letters); else \<^verbatim>\<open>application/octet-stream\<close>.
\<close>

theorem encode_data_uri_roundtrip:
  assumes "node_at fs (d @ [n]) = Some (File b)"
  shows "\<exists>mime. encode_data_uri gt fs (d @ [n])
                  = Inr (''data:'' @ mime @ '';base64,'' @ b64encode b)
               \<and> b64decode (b64encode b) = Some b
               \<and> mime = (case gt (slashed (d @ [n])) of
                           Some (c # cs) \<Rightarrow> c # cs
                         | _ \<Rightarrow> extension_mime n)"
  using assms
  by (simp add: encode_data_uri_def read_bytes_def guess_mime_served b64_roundtrip)

theorem encode_data_uri_roundtrip_witness:
  "encode_data_uri example_gt example_fs [''m1'', ''x'', ''a.png'']
     = Inr ''data:image/png;base64,CQgHBg==''
   \<and> b64decode ''CQgHBg=='' = Some [9, 8, 7, 6]
   \<and> encode_data_uri example_gt example_fs [''org'', ''b.JPG'']
     = Inr ''data:image/jpeg;base64,/w==''
   \<and> b64decode ''/w=='' = Some [255]"
proof -
  have n1: "node_at example_fs ([''m1'', ''x''] @ [''a.png'']) = Some (File [9, 8, 7, 6])"
    by (simp add: example_fs_def)
  have n2: "node_at example_fs ([''org''] @ [''b.JPG'']) = Some (File [255])"
    by (simp add: example_fs_def)
  have e1: "b64encode [9, 8, 7, 6 :: byte] = ''CQgHBg==''"
    by (simp add: b64char_def b64_alphabet_def Let_def)
  have e2: "b64encode [255 :: byte] = ''/w==''"
    by (simp add: b64char_def b64_alphabet_def Let_def)
  have m1: "(case example_gt (slashed ([''m1'', ''x''] @ [''a.png''])) of
               Some (c # cs) \<Rightarrow> c # cs
             | _ \<Rightarrow> extension_mime ''a.png'') = ''image/png''"
    by (simp add: example_gt_def slashed_def)
  have m2: "(case example_gt (slashed ([''org''] @ [''b.JPG''])) of
               Some (c # cs) \<Rightarrow> c # cs
             | _ \<Rightarrow> extension_mime ''b.JPG'') = ''image/jpeg''"
    by (simp add: example_gt_def slashed_def extension_mime_def ends_with_ext_def ci_eq_def
        letter_pairs_def)
  from encode_data_uri_roundtrip [OF n1, of example_gt]
  have 1: "encode_data_uri example_gt example_fs [''m1'', ''x'', ''a.png'']
             = Inr ''data:image/png;base64,CQgHBg==''"
    and 2: "b64decode ''CQgHBg=='' = Some [9, 8, 7, 6 :: byte]"
    unfolding m1 e1 by simp_all
  from encode_data_uri_roundtrip [OF n2, of example_gt]
  have 3: "encode_data_uri example_gt example_fs [''org'', ''b.JPG'']
             = Inr ''data:image/jpeg;base64,/w==''"
    and 4: "b64decode ''/w=='' = Some [255 :: byte]"
    unfolding m2 e2 by simp_all
  from 1 2 3 4 show ?thesis by (intro conjI)
qed

section \<open>Stages and what they append\<close>

lemma collect_Inr_D:
  "collect rs = Inr ys \<Longrightarrow> \<exists>xss. rs = map Inr xss \<and> ys = concat xss"
proof (induction rs arbitrary: ys rule: collect.induct)
  case 1
  then show ?case by simp
next
  case (2 e rs)
  then show ?case by simp
next
  case (3 xs rs)
  from "3.prems" obtain zs where zs: "collect rs = Inr zs" and ys: "ys = xs @ zs"
    by (auto split: sum.splits)
  from "3.IH" [OF zs] obtain xss where "rs = map Inr xss" "zs = concat xss" by blast
  then have "Inr xs # rs = map Inr (xs # xss) \<and> ys = concat (xs # xss)"
    using ys by simp
  then show ?case by (rule exI [where x = "xs # xss"])
qed

lemma collect_map_Inr: "collect (map Inr xss) = Inr (concat xss)"
  by (induction xss) simp_all

lemma concat_contains:
  "xs \<in> set xss \<Longrightarrow> \<exists>pre post. concat xss = pre @ xs @ post"
proof -
  assume "xs \<in> set xss"
  then obtain as bs where "xss = as @ xs # bs" by (auto simp: in_set_conv_decomp)
  then have "concat xss = concat as @ xs @ concat bs" by simp
  then show ?thesis by blast
qed

lemma collect_contains:
  assumes "collect rs = Inr ys" and "r \<in> set rs"
  shows "\<exists>xs pre post. r = Inr xs \<and> ys = pre @ xs @ post"
proof -
  from collect_Inr_D [OF assms(1)] obtain xss where xss: "rs = map Inr xss" "ys = concat xss"
    by blast
  with assms(2) obtain xs where xs: "r = Inr xs" "xs \<in> set xss" by auto
  from concat_contains [OF xs(2)] xss(2) xs(1) show ?thesis by blast
qed

lemma contains_trans:
  "ys = pre @ xs @ post \<Longrightarrow> zs = pre' @ ys @ post' \<Longrightarrow> \<exists>p q. zs = p @ xs @ q"
  by (metis append.assoc)

lemma model_cells_contains:
  assumes "model_cells gt fs m label subfolders fname = Inr cs" and "sub \<in> set subfolders"
  shows "\<exists>cell pre post. model_cell gt fs m label sub fname = Inr cell \<and> cs = pre @ cell @ post"
  using collect_contains [OF assms(1) [unfolded model_cells_def], of "model_cell gt fs m label sub fname"]
    assms(2) by auto

lemma hd_or_tl: "m \<in> set models \<Longrightarrow> (\<exists>ms. models = m # ms) \<or> m \<in> set (tl models)"
  by (cases models) auto

lemma zip_tl_names:
  "m \<in> set (tl models) \<Longrightarrow> (m, name m) \<in> set (zip (tl models) (tl (map name models)))"
  by (auto simp: map_tl [symmetric] zip_map2 zip_same_conv_map image_iff)

lemma section_contains_model_cell:
  assumes sec: "section_parts gt fs org_dir models subfolders fname = Inr sec"
    and m: "m \<in> set models" and sub: "sub \<in> set subfolders"
  shows "\<exists>cell pre post.
           model_cell gt fs m (name m) sub fname = Inr cell \<and> sec = pre @ cell @ post"
proof -
  let ?labels = "map name models"
  let ?stages = "[Inr (section_head subfolders fname), org_cell gt fs org_dir fname,
      first_row gt fs models ?labels subfolders fname,
      other_rows gt fs models ?labels subfolders fname, Inr [div_close, ''</section>'']]"
  from sec have c: "collect ?stages = Inr sec"
    by (simp add: section_parts_def Let_def)
  from hd_or_tl [OF m] show ?thesis
  proof
    assume "\<exists>ms. models = m # ms"
    then obtain ms where ms: "models = m # ms" ..
    then have fr: "first_row gt fs models ?labels subfolders fname
        = model_cells gt fs m (name m) subfolders fname"
      by (simp add: first_row_def)
    from collect_contains [OF c, of "first_row gt fs models ?labels subfolders fname"]
    obtain cs pre post where cs: "model_cells gt fs m (name m) subfolders fname = Inr cs"
      and s: "sec = pre @ cs @ post"
      unfolding fr by auto
    from model_cells_contains [OF cs sub] obtain cell pre' post'
      where "model_cell gt fs m (name m) sub fname = Inr cell" "cs = pre' @ cell @ post'"
      by blast
    with s contains_trans show ?thesis by blast
  next
    assume "m \<in> set (tl models)"
    then have z: "(m, name m) \<in> set (zip (tl models) (tl ?labels))" by (rule zip_tl_names)
    from collect_contains [OF c, of "other_rows gt fs models ?labels subfolders fname"]
    obtain rs pre post where rs: "other_rows gt fs models ?labels subfolders fname = Inr rs"
      and s: "sec = pre @ rs @ post"
      by auto
    from collect_contains [OF rs [unfolded other_rows_def],
        of "model_row gt fs subfolders fname (m, name m)"] z
    obtain row pre1 post1 where row: "model_row gt fs subfolders fname (m, name m) = Inr row"
      and r: "rs = pre1 @ row @ post1"
      by auto
    from collect_contains [OF row [unfolded model_row_def],
        of "model_cells gt fs m (name m) subfolders fname"]
    obtain cs pre2 post2 where cs: "model_cells gt fs m (name m) subfolders fname = Inr cs"
      and w: "row = pre2 @ cs @ post2"
      by auto
    from model_cells_contains [OF cs sub] obtain cell pre3 post3
      where cell: "model_cell gt fs m (name m) sub fname = Inr cell" "cs = pre3 @ cell @ post3"
      by blast
    from contains_trans [OF cell(2) w] obtain p1 q1 where "row = p1 @ cell @ q1" by blast
    from contains_trans [OF this r] obtain p2 q2 where "rs = p2 @ cell @ q2" by blast
    from contains_trans [OF this s] cell(1) show ?thesis by blast
  qed
qed

lemma build_parts_contains_section:
  assumes "build_parts gt fs org_dir models subfolders title max_height = Inr parts"
    and "list_org_files fs org_dir = Inr org_files" and "fname \<in> set org_files"
  shows "\<exists>sec pre post.
           section_parts gt fs org_dir models subfolders fname = Inr sec
           \<and> parts = pre @ sec @ post"
proof -
  from assms(1,2) have "collect
      (Inr (head_parts org_dir models subfolders title max_height)
       # map (section_parts gt fs org_dir models subfolders) org_files
       @ [Inr [''</div></body></html>'']]) = Inr parts"
    by (simp add: build_parts_def)
  from collect_contains [OF this, of "section_parts gt fs org_dir models subfolders fname"]
    assms(3)
  show ?thesis by auto
qed

lemma model_cell_cases:
  assumes "model_cell gt fs m label sub fname = Inr cell"
  shows "case node_at fs (joinpath (joinpath m sub) fname) of
           Some (File b) \<Rightarrow>
             cell = [cell_open, label_line label sub,
                     img_tag (''data:'' @ guess_mime gt (joinpath (joinpath m sub) fname)
                              @ '';base64,'' @ b64encode b)
                       (escape label @ ''/'' @ escape sub @ '':'' @ escape fname),
                     div_close]
         | _ \<Rightarrow> cell = [cell_open, label_line label sub, missing_marker, div_close]"
  using assms
  by (auto simp: model_cell_def Let_def exists_path_def encode_data_uri_def read_bytes_def
      split: option.splits node.splits if_splits sum.splits)

lemma missing_cell_no_img:
  "\<not> list_ex is_img_tag [cell_open, label_line label sub, missing_marker, div_close]"
  by (simp add: is_img_tag_def cell_open_def label_line_def missing_marker_def div_close_def)

subsection \<open>When the stages return\<close>

lemma collect_Inr_I:
  "\<forall>r\<in>set rs. \<exists>xs. r = Inr xs \<Longrightarrow> \<exists>ys. collect rs = Inr ys"
proof (induction rs rule: collect.induct)
  case 1
  show ?case by simp
next
  case (2 e rs)
  then show ?case by simp
next
  case (3 xs rs)
  then obtain ys where "collect rs = Inr ys" by auto
  then show ?case by simp
qed

lemma encode_returns:
  "exists_path fs p \<Longrightarrow> \<not> is_dir fs p \<Longrightarrow> \<exists>uri. encode_data_uri gt fs p = Inr uri"
  by (auto simp: exists_path_def is_dir_def encode_data_uri_def read_bytes_def
      split: option.splits node.splits)

lemma model_cell_returns:
  assumes "\<not> is_dir fs (joinpath (joinpath m sub) fname)"
  shows "\<exists>cell. model_cell gt fs m label sub fname = Inr cell"
proof (cases "exists_path fs (joinpath (joinpath m sub) fname)")
  case True
  from encode_returns [OF True assms] obtain uri
    where "encode_data_uri gt fs (joinpath (joinpath m sub) fname) = Inr uri" ..
  with True show ?thesis by (simp add: model_cell_def Let_def)
next
  case False
  then show ?thesis by (simp add: model_cell_def Let_def)
qed

lemma org_cell_returns:
  assumes "\<not> is_dir fs (joinpath org_dir fname)"
  shows "\<exists>cell. org_cell gt fs org_dir fname = Inr cell"
proof (cases "exists_path fs (joinpath org_dir fname)")
  case True
  from encode_returns [OF True assms] obtain uri
    where "encode_data_uri gt fs (joinpath org_dir fname) = Inr uri" ..
  with True show ?thesis by (simp add: org_cell_def Let_def)
next
  case False
  then show ?thesis by (simp add: org_cell_def Let_def)
qed

lemma model_cells_returns:
  assumes "\<forall>sub\<in>set subfolders. \<not> is_dir fs (joinpath (joinpath m sub) fname)"
  shows "\<exists>cs. model_cells gt fs m label subfolders fname = Inr cs"
  unfolding model_cells_def
  by (rule collect_Inr_I) (use assms model_cell_returns in auto)

lemma first_row_returns:
  assumes "\<forall>m\<in>set models. \<forall>sub\<in>set subfolders. \<not> is_dir fs (joinpath (joinpath m sub) fname)"
  shows "\<exists>cs. first_row gt fs models (map name models) subfolders fname = Inr cs"
proof (cases models)
  case Nil
  then show ?thesis by (simp add: first_row_def)
next
  case (Cons m0 ms)
  with assms have "\<forall>sub\<in>set subfolders. \<not> is_dir fs (joinpath (joinpath m0 sub) fname)"
    by simp
  from model_cells_returns [OF this] Cons show ?thesis by (simp add: first_row_def)
qed

lemma model_row_returns:
  assumes "\<forall>sub\<in>set subfolders. \<not> is_dir fs (joinpath (joinpath (fst ml) sub) fname)"
  shows "\<exists>row. model_row gt fs subfolders fname ml = Inr row"
proof -
  from model_cells_returns [OF assms] obtain cs
    where "model_cells gt fs (fst ml) (snd ml) subfolders fname = Inr cs" by blast
  then show ?thesis by (simp add: model_row_def)
qed

lemma other_rows_returns:
  assumes "\<forall>m\<in>set models. \<forall>sub\<in>set subfolders. \<not> is_dir fs (joinpath (joinpath m sub) fname)"
  shows "\<exists>rs. other_rows gt fs models (map name models) subfolders fname = Inr rs"
  unfolding other_rows_def
proof (rule collect_Inr_I, rule ballI)
  fix r
  assume "r \<in> set (map (model_row gt fs subfolders fname) (zip (tl models) (tl (map name models))))"
  then obtain ml where ml: "ml \<in> set (zip (tl models) (tl (map name models)))"
    and r: "r = model_row gt fs subfolders fname ml" by auto
  from ml have "fst ml \<in> set (tl models)" by (metis in_set_zipE prod.collapse)
  then have "fst ml \<in> set models" by (cases models) auto
  with assms have "\<forall>sub\<in>set subfolders. \<not> is_dir fs (joinpath (joinpath (fst ml) sub) fname)"
    by blast
  from model_row_returns [OF this] r show "\<exists>xs. r = Inr xs" by blast
qed

lemma section_parts_returns:
  assumes "\<not> is_dir fs (joinpath org_dir fname)"
    and "\<forall>m\<in>set models. \<forall>sub\<in>set subfolders. \<not> is_dir fs (joinpath (joinpath m sub) fname)"
  shows "\<exists>sec. section_parts gt fs org_dir models subfolders fname = Inr sec"
proof -
  from org_cell_returns [OF assms(1)] obtain oc
    where "org_cell gt fs org_dir fname = Inr oc" by blast
  moreover from first_row_returns [OF assms(2)] obtain r1
    where "first_row gt fs models (map name models) subfolders fname = Inr r1" by blast
  moreover from other_rows_returns [OF assms(2)] obtain rs
    where "other_rows gt fs models (map name models) subfolders fname = Inr rs" by blast
  ultimately show ?thesis by (simp add: section_parts_def Let_def)
qed

lemma build_parts_returns:
  assumes "list_org_files fs org_dir = Inr org_files"
    and "\<forall>fname\<in>set org_files. \<not> is_dir fs (joinpath org_dir fname)"
    and "\<forall>fname\<in>set org_files. \<forall>m\<in>set models. \<forall>sub\<in>set subfolders.
           \<not> is_dir fs (joinpath (joinpath m sub) fname)"
  shows "\<exists>parts. build_parts gt fs org_dir models subfolders title max_height = Inr parts"
proof -
  have "\<exists>ys. collect
      (Inr (head_parts org_dir models subfolders title max_height)
       # map (section_parts gt fs org_dir models subfolders) org_files
       @ [Inr [''</div></body></html>'']]) = Inr ys"
  proof (rule collect_Inr_I, rule ballI)
    fix r
    assume "r \<in> set (Inr (head_parts org_dir models subfolders title max_height)
       # map (section_parts gt fs org_dir models subfolders) org_files
       @ [Inr [''</div></body></html>'']])"
    then consider "r = Inr (head_parts org_dir models subfolders title max_height)"
      | "r = Inr [''</div></body></html>'']"
      | fname where "fname \<in> set org_files"
          "r = section_parts gt fs org_dir models subfolders fname"
      by auto
    then show "\<exists>xs. r = Inr xs"
    proof cases
      case 3
      with section_parts_returns [of fs org_dir fname models subfolders gt] assms(2,3)
      show ?thesis by blast
    qed blast+
  qed
  with assms(1) show ?thesis by (simp add: build_parts_def)
qed

lemma example_list: "list_org_files example_fs [''org''] = Inr [''a.png'', ''b.JPG'']"
  by (simp add: list_org_files_def iterdir_def example_fs_def is_file_def suffix_def name_def
      lower_def lower_char_def IMAGE_EXTS_def)

lemma example_no_dir:
  "\<forall>fname\<in>set [''a.png'', ''b.JPG''].
     \<not> is_dir example_fs (joinpath [''org''] fname)
     \<and> (\<forall>m\<in>set [[''m1''], [''m2'']]. \<forall>sub\<in>set [''x'', ''y'', ''z''].
           \<not> is_dir example_fs (joinpath (joinpath m sub) fname))"
  by (simp add: is_dir_def example_fs_def joinpath_def parse_parts_def)

lemma example_build:
  "\<exists>parts. build_parts gt example_fs [''org''] [[''m1''], [''m2'']] [''x'', ''y'', ''z''] title h
     = Inr parts"
  using build_parts_returns [OF example_list, of "[[''m1''], [''m2'']]" "[''x'', ''y'', ''z'']"]
    example_no_dir
  by blast

section \<open>The reference files\<close>

lemma split_slash_plain: "CHR ''/'' \<notin> set s \<Longrightarrow> split_slash s = [s]"
  by (induction s) auto

lemma joinpath_plain: "plain s \<Longrightarrow> joinpath p s = p @ [s]"
  by (cases s) (auto simp: plain_def joinpath_def parse_parts_def split_slash_plain
      simp del: split_slash.simps)

lemma joinpath_plain2: "plain sub \<Longrightarrow> plain n \<Longrightarrow> joinpath (joinpath m sub) n = m @ [sub, n]"
  by (simp add: joinpath_plain)

lemma list_org_files_dir:
  assumes "node_at fs d = Some Directory"
  shows "list_org_files fs d =
     Inr (sort (filter (\<lambda>n. is_file fs (d @ [n]) \<and> lower (suffix (d @ [n])) \<in> set IMAGE_EXTS)
                 (entries fs d)))"
proof -
  have "map name (filter (\<lambda>p. is_file fs p \<and> lower (suffix p) \<in> set IMAGE_EXTS)
            (map (\<lambda>n. d @ [n]) (entries fs d)))
      = filter (\<lambda>n. is_file fs (d @ [n]) \<and> lower (suffix (d @ [n])) \<in> set IMAGE_EXTS)
          (entries fs d)"
    by (induction "entries fs d") (auto simp: filter_map o_def name_snoc)
  with assms show ?thesis by (simp add: list_org_files_def iterdir_def)
qed

lemma is_file_iff: "is_file fs p \<longleftrightarrow> (\<exists>b. node_at fs p = Some (File b))"
  by (auto simp: is_file_def split: option.splits node.splits)

lemma image_ext_iff: "lower (suffix (d @ [n])) \<in> set IMAGE_EXTS \<longleftrightarrow> has_image_ext n"
  by (simp add: IMAGE_EXTS_def has_image_ext_def suffix_ext ext_shapes)

lemma list_org_files_spec:
  assumes "node_at fs d = Some Directory"
  shows "list_org_files fs d =
     Inr (sort (filter (\<lambda>n. (\<exists>b. node_at fs (d @ [n]) = Some (File b)) \<and> has_image_ext n)
                 (entries fs d)))"
  using list_org_files_dir [OF assms] by (simp add: is_file_iff image_ext_iff)

lemma collect_Cons_D:
  "collect (r # rs) = Inr ys \<Longrightarrow> \<exists>xs zs. r = Inr xs \<and> collect rs = Inr zs \<and> ys = xs @ zs"
  by (cases r) (auto split: sum.splits)

lemma collect_all:
  assumes "collect rs = Inr ys"
    and "\<And>xs p. Inr xs \<in> set rs \<Longrightarrow> p \<in> set xs \<Longrightarrow> Q p"
  shows "\<forall>p\<in>set ys. Q p"
proof -
  from collect_Inr_D [OF assms(1)] obtain xss where "rs = map Inr xss" "ys = concat xss"
    by blast
  with assms(2) show ?thesis by auto
qed

lemma filter_none: "\<forall>p\<in>set ys. \<not> P p \<Longrightarrow> filter P ys = []"
  by (simp add: filter_empty_conv)

lemma section_shape:
  assumes "section_parts gt fs org_dir models subfolders fname = Inr sec"
  shows "\<exists>oc r1 rs.
           org_cell gt fs org_dir fname = Inr oc
           \<and> first_row gt fs models (map name models) subfolders fname = Inr r1
           \<and> other_rows gt fs models (map name models) subfolders fname = Inr rs
           \<and> sec = section_head subfolders fname @ oc @ r1 @ rs @ [div_close, ''</section>'']"
proof -
  from assms have "collect
      [Inr (section_head subfolders fname), org_cell gt fs org_dir fname,
       first_row gt fs models (map name models) subfolders fname,
       other_rows gt fs models (map name models) subfolders fname,
       Inr [div_close, ''</section>'']] = Inr sec"
    by (simp add: section_parts_def Let_def)
  from collect_Cons_D [OF this] obtain y1
    where 1: "collect [org_cell gt fs org_dir fname,
       first_row gt fs models (map name models) subfolders fname,
       other_rows gt fs models (map name models) subfolders fname,
       Inr [div_close, ''</section>'']] = Inr y1"
      and s1: "sec = section_head subfolders fname @ y1"
    by auto
  from collect_Cons_D [OF 1] obtain oc y2
    where oc: "org_cell gt fs org_dir fname = Inr oc"
      and 2: "collect [first_row gt fs models (map name models) subfolders fname,
       other_rows gt fs models (map name models) subfolders fname,
       Inr [div_close, ''</section>'']] = Inr y2"
      and s2: "y1 = oc @ y2"
    by auto
  from collect_Cons_D [OF 2] obtain r1 y3
    where r1: "first_row gt fs models (map name models) subfolders fname = Inr r1"
      and 3: "collect [other_rows gt fs models (map name models) subfolders fname,
       Inr [div_close, ''</section>'']] = Inr y3"
      and s3: "y2 = r1 @ y3"
    by auto
  from collect_Cons_D [OF 3] obtain rs
    where rs: "other_rows gt fs models (map name models) subfolders fname = Inr rs"
      and s4: "y3 = rs @ [div_close, ''</section>'']"
    by auto
  from oc r1 rs s1 s2 s3 s4 show ?thesis by simp
qed

lemma org_cell_no_fname:
  "org_cell gt fs org_dir fname = Inr oc \<Longrightarrow> \<forall>p\<in>set oc. \<not> is_fname_line p"
  by (auto simp: org_cell_def Let_def is_fname_line_def cell_open_def img_tag_def div_close_def
      original_missing_def split: if_splits sum.splits)

lemma model_cell_no_fname:
  "model_cell gt fs m label sub fname = Inr c \<Longrightarrow> \<forall>p\<in>set c. \<not> is_fname_line p"
  by (auto simp: model_cell_def Let_def is_fname_line_def cell_open_def img_tag_def div_close_def
      missing_marker_def label_line_def split: if_splits sum.splits)

lemma model_cells_no_fname:
  assumes "model_cells gt fs m label subfolders fname = Inr cs"
  shows "\<forall>p\<in>set cs. \<not> is_fname_line p"
proof (rule collect_all [OF assms [unfolded model_cells_def]])
  fix xs p
  assume "Inr xs \<in> set (map (\<lambda>sub. model_cell gt fs m label sub fname) subfolders)"
    and p: "p \<in> set xs"
  then obtain sub where "model_cell gt fs m label sub fname = Inr xs" by auto
  from model_cell_no_fname [OF this] p show "\<not> is_fname_line p" by blast
qed

lemma first_row_no_fname:
  assumes "first_row gt fs models labels subfolders fname = Inr r1"
  shows "\<forall>p\<in>set r1. \<not> is_fname_line p"
proof (cases "\<exists>m0 ms l0 ls. models = m0 # ms \<and> labels = l0 # ls")
  case True
  then obtain m0 ms l0 ls where "models = m0 # ms" "labels = l0 # ls" by blast
  with assms have "model_cells gt fs m0 l0 subfolders fname = Inr r1"
    by (simp add: first_row_def)
  then show ?thesis by (rule model_cells_no_fname)
next
  case False
  with assms have "r1 = map (\<lambda>sub. no_model) subfolders"
    by (auto simp: first_row_def split: list.splits)
  then show ?thesis by (auto simp: no_model_def is_fname_line_def)
qed

lemma model_row_no_fname:
  assumes "model_row gt fs subfolders fname ml = Inr row"
  shows "\<forall>p\<in>set row. \<not> is_fname_line p"
proof -
  from assms have "collect [Inr [placeholder],
      model_cells gt fs (fst ml) (snd ml) subfolders fname] = Inr row"
    by (simp add: model_row_def)
  from collect_Cons_D [OF this] obtain y
    where y: "collect [model_cells gt fs (fst ml) (snd ml) subfolders fname] = Inr y"
      and r: "row = [placeholder] @ y"
    by auto
  from collect_Cons_D [OF y] r
  obtain cs where cs: "model_cells gt fs (fst ml) (snd ml) subfolders fname = Inr cs"
    and row: "row = placeholder # cs"
    by auto
  from model_cells_no_fname [OF cs] row show ?thesis
    by (auto simp: placeholder_def is_fname_line_def)
qed

lemma other_rows_no_fname:
  assumes "other_rows gt fs models labels subfolders fname = Inr rs"
  shows "\<forall>p\<in>set rs. \<not> is_fname_line p"
proof (rule collect_all [OF assms [unfolded other_rows_def]])
  fix xs p
  assume "Inr xs \<in> set (map (model_row gt fs subfolders fname) (zip (tl models) (tl labels)))"
    and p: "p \<in> set xs"
  then obtain ml where "model_row gt fs subfolders fname ml = Inr xs" by auto
  from model_row_no_fname [OF this] p show "\<not> is_fname_line p" by blast
qed

lemma section_head_fname:
  "filter is_fname_line (section_head subfolders fname)
     = [''<div class='fname'>'' @ escape fname @ ''</div>'']"
proof -
  have "filter is_fname_line (map hdr_cell subfolders) = []"
    by (rule filter_none) (auto simp: hdr_cell_def is_fname_line_def)
  then show ?thesis by (simp add: section_head_def is_fname_line_def)
qed

lemma section_fname:
  assumes "section_parts gt fs org_dir models subfolders fname = Inr sec"
  shows "filter is_fname_line sec = [''<div class='fname'>'' @ escape fname @ ''</div>'']"
proof -
  from section_shape [OF assms] obtain oc r1 rs
    where oc: "org_cell gt fs org_dir fname = Inr oc"
      and r1: "first_row gt fs models (map name models) subfolders fname = Inr r1"
      and rs: "other_rows gt fs models (map name models) subfolders fname = Inr rs"
      and sec: "sec = section_head subfolders fname @ oc @ r1 @ rs @ [div_close, ''</section>'']"
    by blast
  have "filter is_fname_line oc = []" "filter is_fname_line r1 = []" "filter is_fname_line rs = []"
    using org_cell_no_fname [OF oc] first_row_no_fname [OF r1] other_rows_no_fname [OF rs]
    by (simp_all add: filter_empty_conv)
  then show ?thesis
    unfolding sec by (simp add: section_head_fname) (simp add: is_fname_line_def div_close_def)
qed

lemma head_parts_no_fname:
  "filter is_fname_line (head_parts org_dir models subfolders title max_height) = []"
  by (simp add: head_parts_def is_fname_line_def css_def newline_def)

lemma sections_fname:
  "collect (map (section_parts gt fs org_dir models subfolders) names @ [Inr tl_parts]) = Inr ys
   \<Longrightarrow> filter is_fname_line ys
       = map (\<lambda>f. ''<div class='fname'>'' @ escape f @ ''</div>'') names
         @ filter is_fname_line tl_parts"
proof (induction names arbitrary: ys)
  case Nil
  then show ?case by simp
next
  case (Cons f names)
  from Cons.prems have "collect (section_parts gt fs org_dir models subfolders f
      # (map (section_parts gt fs org_dir models subfolders) names @ [Inr tl_parts])) = Inr ys"
    by simp
  from collect_Cons_D [OF this] obtain sec zs
    where sec: "section_parts gt fs org_dir models subfolders f = Inr sec"
      and zs: "collect (map (section_parts gt fs org_dir models subfolders) names
                 @ [Inr tl_parts]) = Inr zs"
      and ys: "ys = sec @ zs"
    by blast
  from Cons.IH [OF zs] section_fname [OF sec] ys show ?case by simp
qed

lemma build_parts_fname_lines:
  assumes "build_parts gt fs org_dir models subfolders title max_height = Inr parts"
    and "list_org_files fs org_dir = Inr names"
  shows "filter is_fname_line parts
           = map (\<lambda>f. ''<div class='fname'>'' @ escape f @ ''</div>'') names"
proof -
  from assms obtain ys
    where ys: "collect (map (section_parts gt fs org_dir models subfolders) names
                 @ [Inr [''</div></body></html>'']]) = Inr ys"
      and parts: "parts = head_parts org_dir models subfolders title max_height @ ys"
    by (auto simp: build_parts_def split: sum.splits)
  from sections_fname [OF ys] parts show ?thesis
    by (simp add: head_parts_no_fname) (simp add: is_fname_line_def)
qed

lemma names_are_entries:
  assumes "node_at fs d = Some Directory" and "list_org_files fs d = Inr names"
    and "fname \<in> set names"
  shows "fname \<in> set (entries fs d) \<and> (\<exists>b. node_at fs (d @ [fname]) = Some (File b))"
  using assms list_org_files_spec [OF assms(1)] by auto

lemma model_cell_literal:
  assumes "model_cell gt fs m label sub fname = Inr cell"
    and "plain sub" and "plain fname"
  shows "case node_at fs (m @ [sub, fname]) of
           Some (File b) \<Rightarrow>
             cell = [''<div class='cell'>'',
                     ''<div class='label'>'' @ escape label @ '' / '' @ escape sub @ ''</div>'',
                     ''<img src='' @ [CHR 0x27] @ ''data:''
                       @ (case gt (slashed (m @ [sub, fname])) of
                            Some (c # cs) \<Rightarrow> c # cs
                          | _ \<Rightarrow> extension_mime fname)
                       @ '';base64,'' @ b64encode b @ [CHR 0x27]
                       @ '' alt='' @ [CHR 0x27]
                       @ escape label @ ''/'' @ escape sub @ '':'' @ escape fname
                       @ [CHR 0x27] @ ''>'',
                     ''</div>'']
         | _ \<Rightarrow>
             cell = [''<div class='cell'>'',
                     ''<div class='label'>'' @ escape label @ '' / '' @ escape sub @ ''</div>'',
                     ''<div class='missing'>MISSING</div>'',
                     ''</div>'']
             \<and> \<not> list_ex is_img_tag cell"
proof -
  have p: "joinpath (joinpath m sub) fname = (m @ [sub]) @ [fname]"
    using assms(2,3) by (simp add: joinpath_plain)
  have g: "guess_mime gt ((m @ [sub]) @ [fname])
      = (case gt (slashed (m @ [sub, fname])) of
           Some (c # cs) \<Rightarrow> c # cs
         | _ \<Rightarrow> extension_mime fname)"
    using guess_mime_served [of gt "m @ [sub]" fname] by simp
  show ?thesis
    using model_cell_cases [OF assms(1)] missing_cell_no_img [of label sub]
    unfolding p g
    by (auto simp: cell_open_def label_line_def img_tag_def quote_def div_close_def
        missing_marker_def split: option.splits node.splits)
qed

lemma build_parts_returns_plain:
  assumes dir: "node_at fs org_dir = Some Directory"
    and pe: "\<forall>n\<in>set (entries fs org_dir). plain n"
    and ps: "\<forall>sub\<in>set subfolders. plain sub"
    and nd: "\<forall>n\<in>set (entries fs org_dir). \<forall>m\<in>set models. \<forall>sub\<in>set subfolders.
               node_at fs (m @ [sub, n]) \<noteq> Some Directory"
    and names: "list_org_files fs org_dir = Inr names"
  shows "\<exists>parts. build_parts gt fs org_dir models subfolders title max_height = Inr parts"
proof (rule build_parts_returns [OF names])
  show "\<forall>fname\<in>set names. \<not> is_dir fs (joinpath org_dir fname)"
  proof
    fix fname
    assume "fname \<in> set names"
    from names_are_entries [OF dir names this] pe
    show "\<not> is_dir fs (joinpath org_dir fname)"
      by (auto simp: joinpath_plain is_dir_def)
  qed
  show "\<forall>fname\<in>set names. \<forall>m\<in>set models. \<forall>sub\<in>set subfolders.
          \<not> is_dir fs (joinpath (joinpath m sub) fname)"
  proof (intro ballI)
    fix fname m sub
    assume f: "fname \<in> set names" and m: "m \<in> set models" and sub: "sub \<in> set subfolders"
    from names_are_entries [OF dir names f] have e: "fname \<in> set (entries fs org_dir)" by blast
    with pe ps sub have "joinpath (joinpath m sub) fname = m @ [sub, fname]"
      by (simp add: joinpath_plain2)
    with nd e m sub show "\<not> is_dir fs (joinpath (joinpath m sub) fname)"
      by (simp add: is_dir_def)
  qed
qed

lemma example_dir: "node_at example_fs [''org''] = Some Directory"
  by (simp add: example_fs_def)

lemma example_plain_entries: "\<forall>n\<in>set (entries example_fs [''org'']). plain n"
  by (simp add: example_fs_def plain_def)

lemma example_plain_subs: "\<forall>sub\<in>set [''x'']. plain sub"
  by (simp add: plain_def)

lemma example_no_dirs:
  "\<forall>n\<in>set (entries example_fs [''org'']). \<forall>m\<in>set [[''m1''], [''m2'']]. \<forall>sub\<in>set [''x''].
     node_at example_fs (m @ [sub, n]) \<noteq> Some Directory"
  by (simp add: example_fs_def)

lemma example_b64: "b64encode [9, 8, 7, 6 :: byte] = ''CQgHBg==''"
  by (simp add: b64char_def b64_alphabet_def Let_def)

text \<open>
  Claim C2. On a directory, \<open>list_org_files\<close> returns the names of exactly those entries
  that are regular files and end, in any case of the letters, in one of \<^verbatim>\<open>.png\<close>, \<^verbatim>\<open>.jpg\<close>,
  \<^verbatim>\<open>.jpeg\<close>, \<^verbatim>\<open>.bmp\<close>, \<^verbatim>\<open>.gif\<close>, \<^verbatim>\<open>.webp\<close>, each as often as the listing has it, in
  ascending lexicographic order; and the section titles of every document built over that
  directory follow this sequence.
\<close>

theorem list_org_files_sorted_images:
  assumes "node_at fs d = Some Directory"
  shows "\<exists>names. list_org_files fs d = Inr names
           \<and> sorted names
           \<and> mset names
               = filter_mset (\<lambda>n. (\<exists>b. node_at fs (d @ [n]) = Some (File b)) \<and> has_image_ext n)
                   (mset (entries fs d))
           \<and> (\<forall>gt models subfolders title max_height parts.
                 build_parts gt fs d models subfolders title max_height = Inr parts \<longrightarrow>
                 filter is_fname_line parts
                   = map (\<lambda>f. ''<div class='fname'>'' @ escape f @ ''</div>'') names)"
proof -
  let ?names = "sort (filter (\<lambda>n. (\<exists>b. node_at fs (d @ [n]) = Some (File b)) \<and> has_image_ext n)
                        (entries fs d))"
  have l: "list_org_files fs d = Inr ?names" by (rule list_org_files_spec [OF assms])
  moreover have "sorted ?names" by simp
  moreover have "mset ?names
      = filter_mset (\<lambda>n. (\<exists>b. node_at fs (d @ [n]) = Some (File b)) \<and> has_image_ext n)
          (mset (entries fs d))"
    by simp
  moreover have "\<forall>gt models subfolders title max_height parts.
      build_parts gt fs d models subfolders title max_height = Inr parts \<longrightarrow>
      filter is_fname_line parts
        = map (\<lambda>f. ''<div class='fname'>'' @ escape f @ ''</div>'') ?names"
    using build_parts_fname_lines [OF _ l] by blast
  ultimately show ?thesis by blast
qed

theorem list_org_files_sorted_images_witness:
  "node_at example_fs [''org''] = Some Directory
   \<and> entries example_fs [''org''] = [''notes.txt'', ''b.JPG'', ''sub'', ''a.png'']
   \<and> list_org_files example_fs [''org''] = Inr [''a.png'', ''b.JPG'']
   \<and> (\<exists>parts. build_parts example_gt example_fs [''org''] [[''m1''], [''m2'']] [''x''] ''t'' 420
                  = Inr parts
          \<and> filter is_fname_line parts
              = [''<div class='fname'>a.png</div>'', ''<div class='fname'>b.JPG</div>''])"
proof -
  from list_org_files_sorted_images [OF example_dir]
  obtain names
    where names: "list_org_files example_fs [''org''] = Inr names"
      and order: "\<And>gt models subfolders title max_height parts.
          build_parts gt example_fs [''org''] models subfolders title max_height = Inr parts
          \<Longrightarrow> filter is_fname_line parts
                = map (\<lambda>f. ''<div class='fname'>'' @ escape f @ ''</div>'') names"
    by blast
  have m: "mset [''a.png'', ''b.JPG'']
      = filter_mset (\<lambda>n. (\<exists>b. node_at example_fs ([''org''] @ [n]) = Some (File b))
                          \<and> has_image_ext n)
          (mset (entries example_fs [''org'']))"
    by (simp add: example_fs_def has_image_ext_def ends_with_ext_def ci_eq_def letter_pairs_def)
  from build_parts_returns_plain [OF example_dir example_plain_entries example_plain_subs
      example_no_dirs names, of example_gt "''t''" 420]
  obtain parts
    where parts: "build_parts example_gt example_fs [''org''] [[''m1''], [''m2'']] [''x'']
                    ''t'' 420 = Inr parts"
    by blast
  have n: "names = [''a.png'', ''b.JPG'']" using names by (simp add: example_list)
  from order [OF parts] have "filter is_fname_line parts
      = [''<div class='fname'>a.png</div>'', ''<div class='fname'>b.JPG</div>'']"
    unfolding n by (simp add: escape_def escape_char_def)
  with parts names n example_dir show ?thesis
    by (auto simp: example_fs_def)
qed

section \<open>The cells of a section\<close>



section \<open>The grid of a section\<close>

lemma grid_items_append: "grid_items (xs @ ys) = grid_items xs @ grid_items ys"
  by (simp add: grid_items_def)


lemma grid_section_head:
  "grid_items (section_head subfolders fname)
     = ''<div class='hdr'></div>''
       # map (\<lambda>s. ''<div class='hdr'>'' @ escape s @ ''</div>'') subfolders"
proof -
  have "grid_items (map hdr_cell subfolders)
      = map (\<lambda>s. ''<div class='hdr'>'' @ escape s @ ''</div>'') subfolders"
    by (induction subfolders) (simp_all add: grid_items_def hdr_cell_def is_grid_item_def)
  then show ?thesis
    by (simp add: section_head_def grid_items_append)
      (simp add: grid_items_def is_grid_item_def)
qed

lemma grid_org_cell:
  assumes "org_cell gt fs org_dir fname = Inr oc"
  shows "grid_items oc = [hd oc]
         \<and> hd oc = (if node_at fs (joinpath org_dir fname) = None
                     then ''<div class='cell center'><div class='missing'>Original MISSING</div></div>''
                     else ''<div class='cell'>'')"
  using assms
  by (auto simp: org_cell_def Let_def exists_path_def grid_items_def is_grid_item_def
      cell_open_def img_tag_def div_close_def original_missing_def
      split: if_splits sum.splits)









lemma section_parts_returns_plain:
  assumes pf: "plain fname" and ps: "\<forall>sub\<in>set subfolders. plain sub"
    and no: "node_at fs (org_dir @ [fname]) \<noteq> Some Directory"
    and nd: "\<forall>m\<in>set models. \<forall>sub\<in>set subfolders.
               node_at fs (m @ [sub, fname]) \<noteq> Some Directory"
  shows "\<exists>sec. section_parts gt fs org_dir models subfolders fname = Inr sec"
proof (rule section_parts_returns)
  from pf no show "\<not> is_dir fs (joinpath org_dir fname)"
    by (simp add: joinpath_plain is_dir_def)
  show "\<forall>m\<in>set models. \<forall>sub\<in>set subfolders. \<not> is_dir fs (joinpath (joinpath m sub) fname)"
    using pf ps nd by (simp add: joinpath_plain2 is_dir_def)
qed













lemma example_plain_names: "plain ''a.png''" "plain ''zz.png''"
  by (simp_all add: plain_def)





text \<open>
  Claim C6. Without models the document is still rendered, and the section of every
  reference file is its head with the header row, the cell of the original, and then one
  \<^verbatim>\<open>No model\<close> placeholder per subfolder, up to the closing tags: one row of cells.
\<close>

theorem no_model_row:
  assumes dir: "node_at fs org_dir = Some Directory"
    and pe: "\<forall>n\<in>set (entries fs org_dir). plain n"
  shows "\<exists>names parts.
           list_org_files fs org_dir = Inr names
           \<and> build_parts gt fs org_dir [] subfolders title max_height = Inr parts
           \<and> (\<forall>fname\<in>set names.
                \<exists>pre sec post head cell.
                  parts = pre @ sec @ post
                  \<and> section_parts gt fs org_dir [] subfolders fname = Inr sec
                  \<and> sec = head @ cell
                          @ replicate (length subfolders)
                              ''<div class='cell center'><div class='missing'>No model</div></div>''
                          @ [''</div>'', ''</section>'']
                  \<and> grid_items head
                      = ''<div class='hdr'></div>''
                        # map (\<lambda>s. ''<div class='hdr'>'' @ escape s @ ''</div>'') subfolders
                  \<and> grid_items cell = [''<div class='cell'>''])"
proof -
  from list_org_files_spec [OF dir] obtain names
    where names: "list_org_files fs org_dir = Inr names" by blast
  have "\<forall>n\<in>set (entries fs org_dir). \<forall>m\<in>set []. \<forall>sub\<in>set subfolders.
      node_at fs (m @ [sub, n]) \<noteq> Some Directory"
    by simp
  have "\<exists>parts. build_parts gt fs org_dir [] subfolders title max_height = Inr parts"
  proof (rule build_parts_returns [OF names])
    show "\<forall>fname\<in>set names. \<not> is_dir fs (joinpath org_dir fname)"
    proof
      fix fname
      assume "fname \<in> set names"
      from names_are_entries [OF dir names this] pe
      show "\<not> is_dir fs (joinpath org_dir fname)"
        by (auto simp: joinpath_plain is_dir_def)
    qed
  qed simp
  then obtain parts
    where parts: "build_parts gt fs org_dir [] subfolders title max_height = Inr parts"
    by blast
  have "\<exists>pre sec post head cell.
      parts = pre @ sec @ post
      \<and> section_parts gt fs org_dir [] subfolders fname = Inr sec
      \<and> sec = head @ cell
              @ replicate (length subfolders)
                  ''<div class='cell center'><div class='missing'>No model</div></div>''
              @ [''</div>'', ''</section>'']
      \<and> grid_items head
          = ''<div class='hdr'></div>''
            # map (\<lambda>s. ''<div class='hdr'>'' @ escape s @ ''</div>'') subfolders
      \<and> grid_items cell = [''<div class='cell'>'']"
    if f: "fname \<in> set names" for fname
  proof -
    from build_parts_contains_section [OF parts names f] obtain sec pre post
      where sec: "section_parts gt fs org_dir [] subfolders fname = Inr sec"
        and p: "parts = pre @ sec @ post"
      by blast
    from section_shape [OF sec] obtain oc r1 rs
      where oc: "org_cell gt fs org_dir fname = Inr oc"
        and r1: "first_row gt fs [] (map name []) subfolders fname = Inr r1"
        and rs: "other_rows gt fs [] (map name []) subfolders fname = Inr rs"
        and shape: "sec = section_head subfolders fname @ oc @ r1 @ rs
                      @ [div_close, ''</section>'']"
      by blast
    from r1 have r1': "r1 = replicate (length subfolders)
        ''<div class='cell center'><div class='missing'>No model</div></div>''"
      by (simp add: first_row_def no_model_def map_replicate_const)
    from rs have rs': "rs = []" by (simp add: other_rows_def)
    from names_are_entries [OF dir names f] pe
    have "node_at fs (joinpath org_dir fname) \<noteq> None"
      by (auto simp: joinpath_plain)
    with grid_org_cell [OF oc] have g: "grid_items oc = [''<div class='cell'>'']" by simp
    have "sec = section_head subfolders fname @ oc
        @ replicate (length subfolders)
            ''<div class='cell center'><div class='missing'>No model</div></div>''
        @ [''</div>'', ''</section>'']"
      unfolding shape r1' rs' by (simp add: div_close_def)
    with sec p g grid_section_head [of subfolders fname] show ?thesis by blast
  qed
  with names parts show ?thesis by blast
qed

theorem no_model_row_witness:
  "\<exists>names parts.
     list_org_files example_fs [''org''] = Inr names
     \<and> build_parts example_gt example_fs [''org''] [] [''x'', ''y''] ''t'' 420 = Inr parts
     \<and> (\<forall>fname\<in>set names.
          \<exists>pre sec post head cell.
            parts = pre @ sec @ post
            \<and> sec = head @ cell
                    @ [''<div class='cell center'><div class='missing'>No model</div></div>'',
                       ''<div class='cell center'><div class='missing'>No model</div></div>'',
                       ''</div>'', ''</section>'']
            \<and> grid_items cell = [''<div class='cell'>''])"
proof -
  from no_model_row [OF example_dir example_plain_entries, of example_gt "[''x'', ''y'']"
      "''t''" 420]
  obtain names parts
    where n: "list_org_files example_fs [''org''] = Inr names"
      and p: "build_parts example_gt example_fs [''org''] [] [''x'', ''y''] ''t'' 420 = Inr parts"
      and r: "\<And>fname. fname \<in> set names \<Longrightarrow>
          \<exists>pre sec post head cell.
            parts = pre @ sec @ post
            \<and> section_parts example_gt example_fs [''org''] [] [''x'', ''y''] fname = Inr sec
            \<and> sec = head @ cell
                    @ replicate (length [''x'', ''y''])
                        ''<div class='cell center'><div class='missing'>No model</div></div>''
                    @ [''</div>'', ''</section>'']
            \<and> grid_items head
                = ''<div class='hdr'></div>''
                  # map (\<lambda>s. ''<div class='hdr'>'' @ escape s @ ''</div>'') [''x'', ''y'']
            \<and> grid_items cell = [''<div class='cell'>'']"
    by blast
  have e: "replicate (length [''x'', ''y''])
      ''<div class='cell center'><div class='missing'>No model</div></div>''
      = [''<div class='cell center'><div class='missing'>No model</div></div>'',
         ''<div class='cell center'><div class='missing'>No model</div></div>'']"
    by (simp add: numeral_2_eq_2)
  have "\<exists>pre sec post head cell.
      parts = pre @ sec @ post
      \<and> sec = head @ cell
              @ [''<div class='cell center'><div class='missing'>No model</div></div>'',
                 ''<div class='cell center'><div class='missing'>No model</div></div>'',
                 ''</div>'', ''</section>'']
      \<and> grid_items cell = [''<div class='cell'>'']"
    if "fname \<in> set names" for fname
    using r [OF that] unfolding e by (simp only: append_Cons append_Nil) blast
  with n p show ?thesis by blast
qed

text \<open>
  Claim C7. For a file name that is not in the original directory the body of the loop
  still returns a section: after the header row comes the \<^verbatim>\<open>Original MISSING\<close> marker in
  place of the original's cell, and the cell of every model and subfolder is in the
  section, with the image when a regular file sits at \<^verbatim>\<open>model_dir/subfolder/filename\<close> and
  with the \<^verbatim>\<open>MISSING\<close> marker when nothing does.
\<close>

theorem original_missing_cell:
  assumes pf: "plain fname" and ps: "\<forall>sub\<in>set subfolders. plain sub"
    and missing: "node_at fs (org_dir @ [fname]) = None"
    and nd: "\<forall>m\<in>set models. \<forall>sub\<in>set subfolders.
               node_at fs (m @ [sub, fname]) \<noteq> Some Directory"
  shows "\<exists>sec head rest.
           section_parts gt fs org_dir models subfolders fname = Inr sec
           \<and> sec = head
                   @ ''<div class='cell center'><div class='missing'>Original MISSING</div></div>''
                   # rest
           \<and> grid_items head
               = ''<div class='hdr'></div>''
                 # map (\<lambda>s. ''<div class='hdr'>'' @ escape s @ ''</div>'') subfolders
           \<and> (\<forall>m\<in>set models. \<forall>sub\<in>set subfolders.
                \<exists>pre cell post.
                  sec = pre @ cell @ post
                  \<and> (case node_at fs (m @ [sub, fname]) of
                        Some (File b) \<Rightarrow>
                          cell = [''<div class='cell'>'',
                                  ''<div class='label'>'' @ escape (name m) @ '' / ''
                                    @ escape sub @ ''</div>'',
                                  ''<img src='' @ [CHR 0x27] @ ''data:''
                                    @ (case gt (slashed (m @ [sub, fname])) of
                                         Some (c # cs) \<Rightarrow> c # cs
                                       | _ \<Rightarrow> extension_mime fname)
                                    @ '';base64,'' @ b64encode b @ [CHR 0x27]
                                    @ '' alt='' @ [CHR 0x27]
                                    @ escape (name m) @ ''/'' @ escape sub @ '':''
                                    @ escape fname
                                    @ [CHR 0x27] @ ''>'',
                                  ''</div>'']
                      | _ \<Rightarrow>
                          cell = [''<div class='cell'>'',
                                  ''<div class='label'>'' @ escape (name m) @ '' / ''
                                    @ escape sub @ ''</div>'',
                                  ''<div class='missing'>MISSING</div>'',
                                  ''</div>'']
                          \<and> \<not> list_ex is_img_tag cell))"
proof -
  from missing have no: "node_at fs (org_dir @ [fname]) \<noteq> Some Directory" by simp
  from section_parts_returns_plain [OF pf ps no nd] obtain sec
    where sec: "section_parts gt fs org_dir models subfolders fname = Inr sec"
    by blast
  from section_shape [OF sec] obtain oc r1 rs
    where oc: "org_cell gt fs org_dir fname = Inr oc"
      and shape: "sec = section_head subfolders fname @ oc @ r1 @ rs
                    @ [div_close, ''</section>'']"
    by blast
  from oc missing pf have "oc
      = [''<div class='cell center'><div class='missing'>Original MISSING</div></div>'']"
    by (simp add: org_cell_def Let_def exists_path_def joinpath_plain original_missing_def)
  with shape have s: "sec = section_head subfolders fname
      @ ''<div class='cell center'><div class='missing'>Original MISSING</div></div>''
      # (r1 @ rs @ [div_close, ''</section>''])"
    by simp
  have "\<exists>pre cell post.
      sec = pre @ cell @ post
      \<and> (case node_at fs (m @ [sub, fname]) of
            Some (File b) \<Rightarrow>
              cell = [''<div class='cell'>'',
                      ''<div class='label'>'' @ escape (name m) @ '' / ''
                        @ escape sub @ ''</div>'',
                      ''<img src='' @ [CHR 0x27] @ ''data:''
                        @ (case gt (slashed (m @ [sub, fname])) of
                             Some (c # cs) \<Rightarrow> c # cs
                           | _ \<Rightarrow> extension_mime fname)
                        @ '';base64,'' @ b64encode b @ [CHR 0x27]
                        @ '' alt='' @ [CHR 0x27]
                        @ escape (name m) @ ''/'' @ escape sub @ '':''
                        @ escape fname
                        @ [CHR 0x27] @ ''>'',
                      ''</div>'']
          | _ \<Rightarrow>
              cell = [''<div class='cell'>'',
                      ''<div class='label'>'' @ escape (name m) @ '' / ''
                        @ escape sub @ ''</div>'',
                      ''<div class='missing'>MISSING</div>'',
                      ''</div>'']
              \<and> \<not> list_ex is_img_tag cell)"
    if m: "m \<in> set models" and sub: "sub \<in> set subfolders" for m sub
  proof -
    from section_contains_model_cell [OF sec m sub] obtain cell pre post
      where cell: "model_cell gt fs m (name m) sub fname = Inr cell"
        and c: "sec = pre @ cell @ post"
      by blast
    from ps sub have "plain sub" by blast
    from model_cell_literal [OF cell this pf] c show ?thesis by blast
  qed
  with sec s grid_section_head [of subfolders fname] show ?thesis by blast
qed

theorem original_missing_cell_witness:
  "\<exists>sec head rest pre post.
     section_parts example_gt example_fs [''org''] [[''m1'']] [''x''] ''zz.png'' = Inr sec
     \<and> sec = head
             @ ''<div class='cell center'><div class='missing'>Original MISSING</div></div>''
             # rest
     \<and> grid_items head = [''<div class='hdr'></div>'', ''<div class='hdr'>x</div>'']
     \<and> sec = pre @ [''<div class='cell'>'', ''<div class='label'>m1 / x</div>'',
                     ''<div class='missing'>MISSING</div>'', ''</div>''] @ post"
proof -
  have missing: "node_at example_fs ([''org''] @ [''zz.png'']) = None"
    by (simp add: example_fs_def)
  have nd: "\<forall>m\<in>set [[''m1'']]. \<forall>sub\<in>set [''x''].
      node_at example_fs (m @ [sub, ''zz.png'']) \<noteq> Some Directory"
    by (simp add: example_fs_def)
  from original_missing_cell [OF example_plain_names(2) example_plain_subs missing nd,
      of example_gt]
  obtain sec head rest
    where s: "section_parts example_gt example_fs [''org''] [[''m1'']] [''x''] ''zz.png''
                = Inr sec"
      and h: "sec = head
             @ ''<div class='cell center'><div class='missing'>Original MISSING</div></div>''
             # rest"
      and g: "grid_items head
               = ''<div class='hdr'></div>''
                 # map (\<lambda>s. ''<div class='hdr'>'' @ escape s @ ''</div>'') [''x'']"
      and c: "\<And>m sub. m \<in> set [[''m1'']] \<Longrightarrow> sub \<in> set [''x''] \<Longrightarrow>
          \<exists>pre cell post.
            sec = pre @ cell @ post
            \<and> (case node_at example_fs (m @ [sub, ''zz.png'']) of
                  Some (File b) \<Rightarrow>
                    cell = [''<div class='cell'>'',
                            ''<div class='label'>'' @ escape (name m) @ '' / ''
                              @ escape sub @ ''</div>'',
                            ''<img src='' @ [CHR 0x27] @ ''data:''
                              @ (case example_gt (slashed (m @ [sub, ''zz.png''])) of
                                   Some (c # cs) \<Rightarrow> c # cs
                                 | _ \<Rightarrow> extension_mime ''zz.png'')
                              @ '';base64,'' @ b64encode b @ [CHR 0x27]
                              @ '' alt='' @ [CHR 0x27]
                              @ escape (name m) @ ''/'' @ escape sub @ '':''
                              @ escape ''zz.png''
                              @ [CHR 0x27] @ ''>'',
                            ''</div>'']
                | _ \<Rightarrow>
                    cell = [''<div class='cell'>'',
                            ''<div class='label'>'' @ escape (name m) @ '' / ''
                              @ escape sub @ ''</div>'',
                            ''<div class='missing'>MISSING</div>'',
                            ''</div>'']
                    \<and> \<not> list_ex is_img_tag cell)"
    by blast
  have m: "[''m1''] \<in> set [[''m1'']]" and x: "''x'' \<in> set [''x'']" by simp_all
  have n: "node_at example_fs ([''m1''] @ [''x'', ''zz.png'']) = None"
    by (simp add: example_fs_def)
  from c [OF m x] obtain pre cell post
    where p: "sec = pre @ cell @ post"
      and k: "cell = [''<div class='cell'>'', ''<div class='label'>m1 / x</div>'',
                     ''<div class='missing'>MISSING</div>'', ''</div>'']"
    unfolding n by (auto simp: escape_def escape_char_def name_def)
  from g have g': "grid_items head = [''<div class='hdr'></div>'', ''<div class='hdr'>x</div>'']"
    by (simp add: escape_def escape_char_def)
  from s h g' p show ?thesis unfolding k by blast
qed

section \<open>Independence of the listing order\<close>

lemma encode_node_at:
  assumes "node_at fs' = node_at fs"
  shows "encode_data_uri gt fs' p = encode_data_uri gt fs p"
  using assms by (simp add: encode_data_uri_def read_bytes_def)

lemma exists_node_at:
  assumes "node_at fs' = node_at fs"
  shows "exists_path fs' p = exists_path fs p"
  using assms by (simp add: exists_path_def)

lemma model_cell_node_at:
  assumes n: "node_at fs' = node_at fs"
  shows "model_cell gt fs' m label sub fname = model_cell gt fs m label sub fname"
  unfolding model_cell_def encode_node_at [OF n] exists_node_at [OF n] by (rule refl)

lemma org_cell_node_at:
  assumes n: "node_at fs' = node_at fs"
  shows "org_cell gt fs' org_dir fname = org_cell gt fs org_dir fname"
  unfolding org_cell_def encode_node_at [OF n] exists_node_at [OF n] by (rule refl)

lemma model_cells_node_at:
  assumes n: "node_at fs' = node_at fs"
  shows "model_cells gt fs' m label subfolders fname = model_cells gt fs m label subfolders fname"
  unfolding model_cells_def model_cell_node_at [OF n] by (rule refl)

lemma first_row_node_at:
  assumes n: "node_at fs' = node_at fs"
  shows "first_row gt fs' models labels subfolders fname
           = first_row gt fs models labels subfolders fname"
  unfolding first_row_def model_cells_node_at [OF n] by (rule refl)

lemma model_row_node_at:
  assumes n: "node_at fs' = node_at fs"
  shows "model_row gt fs' subfolders fname ml = model_row gt fs subfolders fname ml"
  unfolding model_row_def model_cells_node_at [OF n] by (rule refl)

lemma other_rows_node_at:
  assumes n: "node_at fs' = node_at fs"
  shows "other_rows gt fs' models labels subfolders fname
           = other_rows gt fs models labels subfolders fname"
proof -
  have "model_row gt fs' subfolders fname = model_row gt fs subfolders fname"
    by (intro ext) (rule model_row_node_at [OF n])
  then show ?thesis by (simp add: other_rows_def)
qed

lemma section_parts_node_at:
  assumes n: "node_at fs' = node_at fs"
  shows "section_parts gt fs' org_dir models subfolders fname
           = section_parts gt fs org_dir models subfolders fname"
  unfolding section_parts_def org_cell_node_at [OF n] first_row_node_at [OF n]
    other_rows_node_at [OF n]
  by (rule refl)

lemma list_org_files_perm:
  assumes n: "node_at fs' = node_at fs"
    and e: "mset (entries fs' d) = mset (entries fs d)"
  shows "list_org_files fs' d = list_org_files fs d"
proof (cases "node_at fs d = Some Directory")
  case True
  let ?P = "\<lambda>n. is_file fs (d @ [n]) \<and> lower (suffix (d @ [n])) \<in> set IMAGE_EXTS"
  have P: "(\<lambda>n. is_file fs' (d @ [n]) \<and> lower (suffix (d @ [n])) \<in> set IMAGE_EXTS) = ?P"
    using n by (simp add: is_file_def)
  have "mset (sort (filter ?P (entries fs' d))) = mset (filter ?P (entries fs d))"
    using e by simp
  then have "sort (filter ?P (entries fs d)) = sort (filter ?P (entries fs' d))"
    by (rule properties_for_sort) simp
  with True n show ?thesis
    using list_org_files_dir [of fs d] list_org_files_dir [of fs' d] P by simp
next
  case False
  with n show ?thesis
    by (auto simp: list_org_files_def iterdir_def split: option.splits node.splits)
qed

text \<open>
  Claim C9. Two snapshots that hold the same nodes and list the entries of the original
  directory in different orders give the same result of \<open>build_html\<close> for the same
  arguments, be it the document or the error: the listing is sorted before it is used, and
  nothing else of the run depends on it.
\<close>

theorem build_html_deterministic:
  assumes "node_at fs' = node_at fs"
    and "mset (entries fs' org_dir) = mset (entries fs org_dir)"
  shows "build_html gt fs' org_dir models subfolders title max_height
           = build_html gt fs org_dir models subfolders title max_height"
proof -
  have s: "section_parts gt fs' org_dir models subfolders
      = section_parts gt fs org_dir models subfolders"
    by (intro ext) (rule section_parts_node_at [OF assms(1)])
  show ?thesis
    unfolding build_html_def build_parts_def list_org_files_perm [OF assms] s
    by (rule refl)
qed

theorem build_html_deterministic_witness:
  "entries (example_fs\<lparr>entries := \<lambda>d. rev (entries example_fs d)\<rparr>) [''org'']
     = [''a.png'', ''sub'', ''b.JPG'', ''notes.txt'']
   \<and> entries example_fs [''org''] = [''notes.txt'', ''b.JPG'', ''sub'', ''a.png'']
   \<and> build_html example_gt (example_fs\<lparr>entries := \<lambda>d. rev (entries example_fs d)\<rparr>)
         [''org''] [[''m1''], [''m2'']] [''x''] ''t'' 420
       = build_html example_gt example_fs [''org''] [[''m1''], [''m2'']] [''x''] ''t'' 420
   \<and> (\<exists>doc. build_html example_gt example_fs [''org''] [[''m1''], [''m2'']] [''x''] ''t'' 420
               = Inr doc)"
proof -
  let ?fs = "example_fs\<lparr>entries := \<lambda>d. rev (entries example_fs d)\<rparr>"
  have n: "node_at ?fs = node_at example_fs" by simp
  have e: "mset (entries ?fs [''org'']) = mset (entries example_fs [''org''])" by simp
  from list_org_files_spec [OF example_dir] obtain names
    where names: "list_org_files example_fs [''org''] = Inr names" by blast
  from build_parts_returns_plain [OF example_dir example_plain_entries example_plain_subs
      example_no_dirs names, of example_gt "''t''" 420]
  have r: "\<exists>doc. build_html example_gt example_fs [''org''] [[''m1''], [''m2'']] [''x''] ''t'' 420
      = Inr doc"
    by (auto simp: build_html_def)
  have l: "entries ?fs [''org''] = [''a.png'', ''sub'', ''b.JPG'', ''notes.txt'']"
    "entries example_fs [''org''] = [''notes.txt'', ''b.JPG'', ''sub'', ''a.png'']"
    by (simp_all add: example_fs_def)
  from build_html_deterministic [OF n e, of example_gt "[[''m1''], [''m2'']]" "[''x'']" "''t''" 420]
    r l
  show ?thesis by blast
qed

end
